theory Spec2Isabelle
  imports Complex_Main "HOL-Library.Char_ord" "HOL-Library.Word"
begin

section \<open>Numeric types (type.cc)\<close>

text \<open>
  The numeric type singletons implemented in type.cc by IMPLEMENT_NUMERIC_TYPE.
  A pointer to a singleton is modelled by the constructor itself.
\<close>

datatype NumericBase = Bool | Int8 | Int16 | Int32 | Uint8 | Uint16 | Uint32 | Float | Double

section \<open>Scanner (transpiler/scanner.cc)\<close>

subsection \<open>Tokens, exceptions and the scan state\<close>

datatype TokenType =
    LEFT_PAREN | RIGHT_PAREN | LEFT_BRACE | RIGHT_BRACE
  | LEFT_SQUARE_BRACKET | RIGHT_SQUARE_BRACKET
  | COMMA | DOT | COLON | SEMICOLON | TILDA | QUESTION
  | NOT_EQUAL | NOT_OP | EQUAL_EQUAL | EQUAL
  | STAR_EQUAL | STAR | PERCENT_EQUAL | PERCENT | CARET_EQUAL | CARET
  | LESS_EQUAL | SHIFT_LEFT_EQUAL | SHIFT_LEFT | LESS
  | GREATER_EQUAL | SHIFT_RIGHT_EQUAL | SHIFT_RIGHT | GREATER
  | PLUS_EQUAL | PLUS_PLUS | PLUS | MINUS_EQUAL | MINUS_MINUS | MINUS
  | AMPERSAND_EQUAL | AMPERSAND_AMPERSAND | AMPERSAND
  | PIPE_EQUAL | PIPE_PIPE | PIPE | SLASH
  | IDENTIFIER | STRING
  | INT32_NUMBER | UINT32_NUMBER | FLOAT_NUMBER | DOUBLE_NUMBER
  | TYPE_SPECIFIER | TYPE_QUALIFIER
  | DO | ELSE | FALSE | FOR | IF | TRUE | WHILE | SWITCH | BREAK | CONTINUE
  | CASE | DEFAULT | PRINT
  | END_OF_FILE

text \<open>
  The C++ exceptions the scanner can raise: \<open>std::runtime_error\<close> with its message, and
  the \<open>std::out_of_range\<close> of \<open>string_view::at\<close>, \<open>string_view::substr\<close> and \<open>std::map::at\<close>.
\<close>

datatype exn = RuntimeError string | OutOfRange

record Token =
  type :: TokenType
  lexeme :: string
  line :: nat

text \<open>
  The scan state. The error handler, held by reference in the source, is the list of
  (line, message) pairs reported so far; the type context maps a typedef name to its type.
\<close>

record ScanState =
  m_Start :: nat
  m_Current :: nat
  m_Line :: nat
  m_Source :: string
  m_Context :: "string \<rightharpoonup> NumericBase"
  m_ErrorHandler :: "(nat \<times> string) list"

definition string_at :: "string \<Rightarrow> nat \<Rightarrow> exn + char" where
  "string_at s i = (if i < length s then Inr (s ! i) else Inl OutOfRange)"

definition substr :: "string \<Rightarrow> nat \<Rightarrow> nat \<Rightarrow> exn + string" where
  "substr s pos n = (if pos > length s then Inl OutOfRange else Inr (take n (drop pos s)))"

definition isAtEnd :: "ScanState \<Rightarrow> bool" where
  "isAtEnd st = (m_Current st \<ge> length (m_Source st))"

definition advance :: "ScanState \<Rightarrow> exn + (char \<times> ScanState)" where
  "advance st =
     (let st' = st\<lparr>m_Current := m_Current st + 1\<rparr>
      in case string_at (m_Source st') (m_Current st' - 1) of
           Inl e \<Rightarrow> Inl e
         | Inr c \<Rightarrow> Inr (c, st'))"

definition match :: "char \<Rightarrow> ScanState \<Rightarrow> bool \<times> ScanState" where
  "match expected st =
     (if isAtEnd st then (False, st)
      else if m_Source st ! m_Current st \<noteq> expected then (False, st)
      else (True, st\<lparr>m_Current := m_Current st + 1\<rparr>))"

definition resetLexeme :: "ScanState \<Rightarrow> ScanState" where
  "resetLexeme st = st\<lparr>m_Start := m_Current st\<rparr>"

definition peek :: "ScanState \<Rightarrow> char" where
  "peek st = (if isAtEnd st then CHR 0x00 else m_Source st ! m_Current st)"

definition getLexeme :: "ScanState \<Rightarrow> exn + string" where
  "getLexeme st = substr (m_Source st) (m_Start st) (m_Current st - m_Start st)"

definition getLine :: "ScanState \<Rightarrow> nat" where
  "getLine st = m_Line st"

definition nextLine :: "ScanState \<Rightarrow> ScanState" where
  "nextLine st = st\<lparr>m_Line := m_Line st + 1\<rparr>"

definition error :: "string \<Rightarrow> ScanState \<Rightarrow> ScanState" where
  "error message st = st\<lparr>m_ErrorHandler := m_ErrorHandler st @ [(getLine st, message)]\<rparr>"

definition isTypedefIdentifier :: "string \<Rightarrow> ScanState \<Rightarrow> bool" where
  "isTypedefIdentifier lexm st = (m_Context st lexm \<noteq> None)"

definition getScalarTokenType :: "ScanState \<Rightarrow> exn + TokenType" where
  "getScalarTokenType st =
     (case m_Context st ''scalar'' of
        None \<Rightarrow> Inl (RuntimeError
          ''Cannot scan scalar literals without 'scalar' type being defined in type context'')
      | Some scalarType \<Rightarrow>
          if scalarType = Float then Inr FLOAT_NUMBER
          else if scalarType = Double then Inr DOUBLE_NUMBER
          else Inl (RuntimeError (''Unsupported scalar type '' @ [CHR 0x27] @ ''scalar'' @ [CHR 0x27])))"

subsection \<open>Character classes of the C locale\<close>

definition isdigit :: "char \<Rightarrow> bool" where
  "isdigit c = (CHR ''0'' \<le> c \<and> c \<le> CHR ''9'')"

definition isodigit :: "char \<Rightarrow> bool" where
  "isodigit c = (c \<ge> CHR ''0'' \<and> c \<le> CHR ''7'')"

definition isxdigit :: "char \<Rightarrow> bool" where
  "isxdigit c = (isdigit c \<or> (CHR ''a'' \<le> c \<and> c \<le> CHR ''f'') \<or> (CHR ''A'' \<le> c \<and> c \<le> CHR ''F''))"

definition isalpha :: "char \<Rightarrow> bool" where
  "isalpha c = ((CHR ''a'' \<le> c \<and> c \<le> CHR ''z'') \<or> (CHR ''A'' \<le> c \<and> c \<le> CHR ''Z''))"

definition isalnum :: "char \<Rightarrow> bool" where
  "isalnum c = (isalpha c \<or> isdigit c)"

definition toupper :: "char \<Rightarrow> char" where
  "toupper c = (if CHR ''a'' \<le> c \<and> c \<le> CHR ''z'' then char_of (of_char c - (32::nat)) else c)"

definition tolower :: "char \<Rightarrow> char" where
  "tolower c = (if CHR ''A'' \<le> c \<and> c \<le> CHR ''Z'' then char_of (of_char c + (32::nat)) else c)"

subsection \<open>Lookup tables\<close>

definition keywords_table :: "string \<rightharpoonup> TokenType" where
  "keywords_table = map_of [
     (''const'', TYPE_QUALIFIER),
     (''do'', DO),
     (''else'', ELSE),
     (''false'', FALSE),
     (''for'', FOR),
     (''if'', IF),
     (''true'', TRUE),
     (''while'', WHILE),
     (''switch'', SWITCH),
     (''break'', BREAK),
     (''continue'', CONTINUE),
     (''case'', CASE),
     (''default'', DEFAULT),
     (''print'', PRINT),
     (''char'', TYPE_SPECIFIER),
     (''short'', TYPE_SPECIFIER),
     (''int'', TYPE_SPECIFIER),
     (''long'', TYPE_SPECIFIER),
     (''float'', TYPE_SPECIFIER),
     (''double'', TYPE_SPECIFIER),
     (''signed'', TYPE_SPECIFIER),
     (''unsigned'', TYPE_SPECIFIER),
     (''uint8_t'', TYPE_SPECIFIER),
     (''int8_t'', TYPE_SPECIFIER),
     (''uint16_t'', TYPE_SPECIFIER),
     (''int16_t'', TYPE_SPECIFIER),
     (''uint32_t'', TYPE_SPECIFIER),
     (''int32_t'', TYPE_SPECIFIER),
     (''bool'', TYPE_SPECIFIER)]"

definition integerLiteralTokenTypes :: "char set \<rightharpoonup> TokenType" where
  "integerLiteralTokenTypes = map_of [
     ({}, INT32_NUMBER),
     ({CHR ''U''}, UINT32_NUMBER)]"

subsection \<open>Scanning functions\<close>

definition emplaceToken :: "Token list \<Rightarrow> TokenType \<Rightarrow> ScanState \<Rightarrow> exn + Token list" where
  "emplaceToken tokens ty scanState =
     (case getLexeme scanState of
        Inl e \<Rightarrow> Inl e
      | Inr lexm \<Rightarrow> Inr (tokens @ [\<lparr>type = ty, lexeme = lexm, line = getLine scanState\<rparr>]))"

text \<open>
  \<open>emit\<close> is \<open>emplaceToken\<close> followed by handing the unchanged scan state on: the
  shape of every \<open>emplaceToken(...); break;\<close> of \<open>scanToken\<close>.
\<close>

definition emit :: "TokenType \<Rightarrow> ScanState \<Rightarrow> Token list \<Rightarrow> exn + (ScanState \<times> Token list)" where
  "emit ty scanState tokens =
     (case emplaceToken tokens ty scanState of
        Inl e \<Rightarrow> Inl e
      | Inr tokens' \<Rightarrow> Inr (scanState, tokens'))"

text \<open>
  The loops \<open>while(cond) { scanState.advance(); }\<close>. Past the end of the source
  \<open>advance\<close> raises, which ends the loop with the exception.
\<close>

function advanceWhile :: "(ScanState \<Rightarrow> bool) \<Rightarrow> ScanState \<Rightarrow> exn + ScanState" where
  "advanceWhile cond st =
     (if cond st then
        (case advance st of
           Inl e \<Rightarrow> Inl e
         | Inr (c, st') \<Rightarrow> advanceWhile cond st')
      else Inr st)"
  by pat_completeness auto
termination
  by (relation "measure (\<lambda>(cond, st). Suc (length (m_Source st)) - m_Current st)")
     (auto simp: advance_def string_at_def Let_def split: if_splits)

declare advanceWhile.simps [simp del]

function scanIntegerSuffixLoop :: "char set \<Rightarrow> ScanState \<Rightarrow> exn + (char set \<times> ScanState)" where
  "scanIntegerSuffixLoop suffix st =
     (if toupper (peek st) = CHR ''U'' \<or> toupper (peek st) = CHR ''L'' then
        (case advance st of
           Inl e \<Rightarrow> Inl e
         | Inr (c, st') \<Rightarrow> scanIntegerSuffixLoop (insert (toupper c) suffix) st')
      else Inr (suffix, st))"
  by pat_completeness auto
termination
  by (relation "measure (\<lambda>(suffix, st). Suc (length (m_Source st)) - m_Current st)")
     (auto simp: advance_def string_at_def Let_def split: if_splits)

declare scanIntegerSuffixLoop.simps [simp del]

definition scanIntegerSuffix :: "ScanState \<Rightarrow> exn + (TokenType \<times> ScanState)" where
  "scanIntegerSuffix scanState =
     (case scanIntegerSuffixLoop {} scanState of
        Inl e \<Rightarrow> Inl e
      | Inr (suffix, st') \<Rightarrow>
          (case integerLiteralTokenTypes suffix of
             None \<Rightarrow> Inl OutOfRange
           | Some ty \<Rightarrow> Inr (ty, st')))"

definition scanNumber :: "char \<Rightarrow> ScanState \<Rightarrow> Token list \<Rightarrow> exn + (ScanState \<times> Token list)" where
  "scanNumber c scanState tokens =
     (case (if c = CHR ''0'' then
              (case match (CHR ''x'') scanState of
                 (True, st) \<Rightarrow> (True, st)
               | (False, st) \<Rightarrow> match (CHR ''X'') st)
            else (False, scanState)) of
        (True, st1) \<Rightarrow>
          (case advanceWhile (\<lambda>s. isxdigit (peek s)) st1 of
             Inl e \<Rightarrow> Inl e
           | Inr st2 \<Rightarrow>
               (case match (CHR ''.'') st2 of (dot, st3) \<Rightarrow>
                  (case advanceWhile (\<lambda>s. isxdigit (peek s))
                          (if dot then error ''Hexadecimal floating pointer literals unsupported.'' st3
                           else st3) of
                     Inl e \<Rightarrow> Inl e
                   | Inr st4 \<Rightarrow>
                       (case scanIntegerSuffix st4 of
                          Inl e \<Rightarrow> Inl e
                        | Inr (ty, st5) \<Rightarrow> emit ty st5 tokens))))
      | (False, st1) \<Rightarrow>
          if c = CHR ''0'' \<and> isodigit (peek st1) then
            Inr (error ''Octal literals unsupported.'' st1, tokens)
          else
            (case advanceWhile (\<lambda>s. isdigit (peek s)) st1 of
               Inl e \<Rightarrow> Inl e
             | Inr st2 \<Rightarrow>
                 (case match (CHR ''.'') st2 of (isFloat, st3) \<Rightarrow>
                    (case advanceWhile (\<lambda>s. isdigit (peek s)) st3 of
                       Inl e \<Rightarrow> Inl e
                     | Inr st4 \<Rightarrow>
                         if isFloat then
                           (case (case match (CHR ''e'') st4 of
                                    (True, st5) \<Rightarrow>
                                      (case (if peek st5 = CHR ''-'' \<or> peek st5 = CHR ''+''
                                             then map_sum id snd (advance st5) else Inr st5) of
                                         Inl e \<Rightarrow> Inl e
                                       | Inr st6 \<Rightarrow> advanceWhile (\<lambda>s. isdigit (peek s)) st6)
                                  | (False, st5) \<Rightarrow> Inr st5) of
                              Inl e \<Rightarrow> Inl e
                            | Inr st7 \<Rightarrow>
                                if tolower (peek st7) = CHR ''f'' then
                                  (case emplaceToken tokens FLOAT_NUMBER st7 of
                                     Inl e \<Rightarrow> Inl e
                                   | Inr tokens' \<Rightarrow>
                                       (case advance st7 of
                                          Inl e \<Rightarrow> Inl e
                                        | Inr (x, st8) \<Rightarrow> Inr (st8, tokens')))
                                else if tolower (peek st7) = CHR ''d'' then
                                  (case emplaceToken tokens DOUBLE_NUMBER st7 of
                                     Inl e \<Rightarrow> Inl e
                                   | Inr tokens' \<Rightarrow>
                                       (case advance st7 of
                                          Inl e \<Rightarrow> Inl e
                                        | Inr (x, st8) \<Rightarrow> Inr (st8, tokens')))
                                else
                                  (case getScalarTokenType st7 of
                                     Inl e \<Rightarrow> Inl e
                                   | Inr ty \<Rightarrow> emit ty st7 tokens))
                         else
                           (case scanIntegerSuffix st4 of
                              Inl e \<Rightarrow> Inl e
                            | Inr (ty, st5) \<Rightarrow> emit ty st5 tokens)))))"

definition scanString :: "ScanState \<Rightarrow> Token list \<Rightarrow> exn + (ScanState \<times> Token list)" where
  "scanString scanState tokens =
     (case advanceWhile (\<lambda>s. peek s \<noteq> CHR 0x22) scanState of
        Inl e \<Rightarrow> Inl e
      | Inr st1 \<Rightarrow> emit STRING (snd (match (CHR 0x22) st1)) tokens)"

definition scanIdentifier :: "ScanState \<Rightarrow> Token list \<Rightarrow> exn + (ScanState \<times> Token list)" where
  "scanIdentifier scanState tokens =
     (case advanceWhile (\<lambda>s. isalnum (peek s) \<or> peek s = CHR ''_'') scanState of
        Inl e \<Rightarrow> Inl e
      | Inr st1 \<Rightarrow>
          (case getLexeme st1 of
             Inl e \<Rightarrow> Inl e
           | Inr lexm \<Rightarrow>
               (case keywords_table lexm of
                  Some k \<Rightarrow> emit k st1 tokens
                | None \<Rightarrow>
                    if isTypedefIdentifier lexm st1 then emit TYPE_SPECIFIER st1 tokens
                    else emit IDENTIFIER st1 tokens)))"

text \<open>
  \<open>emitMatch c a b\<close> is \<open>emplaceToken(tokens, scanState.match(c) ? a : b, scanState)\<close>.
\<close>

definition emitMatch :: "char \<Rightarrow> TokenType \<Rightarrow> TokenType \<Rightarrow> ScanState \<Rightarrow> Token list
    \<Rightarrow> exn + (ScanState \<times> Token list)" where
  "emitMatch expected a b scanState tokens =
     (case match expected scanState of (m, st) \<Rightarrow> emit (if m then a else b) st tokens)"

text \<open>The \<open>switch(c)\<close> of \<open>scanToken\<close>, on the character \<open>advance\<close> returned.\<close>

definition scanTokenSwitch :: "char \<Rightarrow> ScanState \<Rightarrow> Token list \<Rightarrow> exn + (ScanState \<times> Token list)" where
  "scanTokenSwitch c st tokens =
         (if c = CHR ''('' then emit LEFT_PAREN st tokens
          else if c = CHR '')'' then emit RIGHT_PAREN st tokens
          else if c = CHR ''{'' then emit LEFT_BRACE st tokens
          else if c = CHR ''}'' then emit RIGHT_BRACE st tokens
          else if c = CHR ''['' then emit LEFT_SQUARE_BRACKET st tokens
          else if c = CHR '']'' then emit RIGHT_SQUARE_BRACKET st tokens
          else if c = CHR '','' then emit COMMA st tokens
          else if c = CHR ''.'' then emit DOT st tokens
          else if c = CHR '':'' then emit COLON st tokens
          else if c = CHR '';'' then emit SEMICOLON st tokens
          else if c = CHR ''~'' then emit TILDA st tokens
          else if c = CHR ''?'' then emit QUESTION st tokens
          else if c = CHR ''!'' then emitMatch (CHR ''='') NOT_EQUAL NOT_OP st tokens
          else if c = CHR ''='' then emitMatch (CHR ''='') EQUAL_EQUAL EQUAL st tokens
          else if c = CHR ''*'' then emitMatch (CHR ''='') STAR_EQUAL STAR st tokens
          else if c = CHR ''%'' then emitMatch (CHR ''='') PERCENT_EQUAL PERCENT st tokens
          else if c = CHR ''^'' then emitMatch (CHR ''='') CARET_EQUAL CARET st tokens
          else if c = CHR ''<'' then
            (case match (CHR ''='') st of
               (True, st1) \<Rightarrow> emit LESS_EQUAL st1 tokens
             | (False, st1) \<Rightarrow>
                 (case match (CHR ''<'') st1 of
                    (True, st2) \<Rightarrow> emitMatch (CHR ''='') SHIFT_LEFT_EQUAL SHIFT_LEFT st2 tokens
                  | (False, st2) \<Rightarrow> emit LESS st2 tokens))
          else if c = CHR ''>'' then
            (case match (CHR ''='') st of
               (True, st1) \<Rightarrow> emit GREATER_EQUAL st1 tokens
             | (False, st1) \<Rightarrow>
                 (case match (CHR ''<'') st1 of
                    (True, st2) \<Rightarrow> emitMatch (CHR ''='') SHIFT_RIGHT_EQUAL SHIFT_RIGHT st2 tokens
                  | (False, st2) \<Rightarrow> emit GREATER st2 tokens))
          else if c = CHR ''+'' then
            (case match (CHR ''='') st of
               (True, st1) \<Rightarrow> emit PLUS_EQUAL st1 tokens
             | (False, st1) \<Rightarrow> emitMatch (CHR ''+'') PLUS_PLUS PLUS st1 tokens)
          else if c = CHR ''-'' then
            (case match (CHR ''='') st of
               (True, st1) \<Rightarrow> emit MINUS_EQUAL st1 tokens
             | (False, st1) \<Rightarrow> emitMatch (CHR ''-'') MINUS_MINUS MINUS st1 tokens)
          else if c = CHR ''&'' then
            (case match (CHR ''='') st of
               (True, st1) \<Rightarrow> emit AMPERSAND_EQUAL st1 tokens
             | (False, st1) \<Rightarrow> emitMatch (CHR ''&'') AMPERSAND_AMPERSAND AMPERSAND st1 tokens)
          else if c = CHR ''|'' then
            (case match (CHR ''='') st of
               (True, st1) \<Rightarrow> emit PIPE_EQUAL st1 tokens
             | (False, st1) \<Rightarrow> emitMatch (CHR ''|'') PIPE_PIPE PIPE st1 tokens)
          else if c = CHR ''/'' then
            (case match (CHR ''/'') st of
               (True, st1) \<Rightarrow>
                 (case advanceWhile (\<lambda>s. peek s \<noteq> CHR 0x0A \<and> \<not> isAtEnd s) st1 of
                    Inl e \<Rightarrow> Inl e
                  | Inr st2 \<Rightarrow> Inr (st2, tokens))
             | (False, st1) \<Rightarrow> emit SLASH st1 tokens)
          else if c = CHR 0x22 then scanString st tokens
          else if c = CHR '' '' \<or> c = CHR 0x0D \<or> c = CHR 0x09 then Inr (st, tokens)
          else if c = CHR 0x0A then Inr (nextLine st, tokens)
          else if isdigit c \<or> c = CHR ''.'' then scanNumber c st tokens
          else if isalpha c \<or> c = CHR ''_'' then scanIdentifier st tokens
          else Inr (error ''Unexpected character.'' st, tokens))"

definition scanToken :: "ScanState \<Rightarrow> Token list \<Rightarrow> exn + (ScanState \<times> Token list)" where
  "scanToken scanState tokens =
     (case advance scanState of
        Inl e \<Rightarrow> Inl e
      | Inr (c, st) \<Rightarrow> scanTokenSwitch c st tokens)"


subsection \<open>Scanning never moves backwards\<close>

definition adv :: "ScanState \<Rightarrow> ScanState \<Rightarrow> bool" where
  "adv st st' \<longleftrightarrow> m_Source st' = m_Source st \<and> m_Current st \<le> m_Current st'"

lemma adv_refl: "adv st st"
  by (simp add: adv_def)

lemma adv_trans: "adv a b \<Longrightarrow> adv b c \<Longrightarrow> adv a c"
  by (simp add: adv_def)

lemma match_adv: "match c st = (m, st') \<Longrightarrow> adv st st'"
  by (auto simp: match_def adv_def split: if_splits)

lemma error_adv: "adv st (error msg st)"
  by (simp add: error_def adv_def)

lemma advance_step:
  "advance st = Inr (c, st') \<Longrightarrow>
     m_Source st' = m_Source st \<and> m_Current st' = m_Current st + 1 \<and> m_Current st < length (m_Source st)"
  by (auto simp: advance_def string_at_def Let_def split: if_splits)

lemma advance_adv: "advance st = Inr (c, st') \<Longrightarrow> adv st st'"
  by (drule advance_step) (simp add: adv_def)

lemma advanceWhile_adv: "advanceWhile cond st = Inr st' \<Longrightarrow> adv st st'"
proof (induction cond st rule: advanceWhile.induct)
  case (1 cond st)
  show ?case
  proof (cases "cond st")
    case False
    with "1.prems" show ?thesis by (simp add: adv_refl advanceWhile.simps [of cond st])
  next
    case True
    with "1.prems" obtain c st1 where a: "advance st = Inr (c, st1)"
      and r: "advanceWhile cond st1 = Inr st'"
      by (auto simp: advanceWhile.simps [of cond st] split: sum.splits)
    from "1.IH" [OF True a refl r] advance_adv [OF a] show ?thesis
      by (blast intro: adv_trans)
  qed
qed

lemma scanIntegerSuffixLoop_adv: "scanIntegerSuffixLoop suffix st = Inr (suffix', st') \<Longrightarrow> adv st st'"
proof (induction suffix st rule: scanIntegerSuffixLoop.induct)
  case (1 suffix st)
  show ?case
  proof (cases "toupper (peek st) = CHR ''U'' \<or> toupper (peek st) = CHR ''L''")
    case False
    with "1.prems" show ?thesis by (simp add: adv_refl scanIntegerSuffixLoop.simps [of suffix st])
  next
    case True
    with "1.prems" obtain c st1 where a: "advance st = Inr (c, st1)"
      and r: "scanIntegerSuffixLoop (insert (toupper c) suffix) st1 = Inr (suffix', st')"
      by (auto simp: scanIntegerSuffixLoop.simps [of suffix st] split: sum.splits)
    from "1.IH" [OF True a refl r] advance_adv [OF a] show ?thesis
      by (blast intro: adv_trans)
  qed
qed

lemma scanIntegerSuffix_adv: "scanIntegerSuffix st = Inr (ty, st') \<Longrightarrow> adv st st'"
  by (auto simp: scanIntegerSuffix_def split: sum.splits option.splits
           dest: scanIntegerSuffixLoop_adv)

lemma emit_state: "emit ty st tokens = Inr (st', tokens') \<Longrightarrow> st' = st"
  by (auto simp: emit_def split: sum.splits)

lemma emit_adv: "emit ty st tokens = Inr (st', tokens') \<Longrightarrow> adv st st'"
  by (auto dest: emit_state simp: adv_refl)

lemma emitMatch_adv: "emitMatch c a b st tokens = Inr (st', tokens') \<Longrightarrow> adv st st'"
  by (auto simp: emitMatch_def split: prod.splits dest!: match_adv emit_state)

lemma scanString_adv: "scanString st tokens = Inr (st', tokens') \<Longrightarrow> adv st st'"
proof -
  assume a: "scanString st tokens = Inr (st', tokens')"
  then obtain st1 where w: "advanceWhile (\<lambda>s. peek s \<noteq> CHR 0x22) st = Inr st1"
    and e: "emit STRING (snd (match (CHR 0x22) st1)) tokens = Inr (st', tokens')"
    by (auto simp: scanString_def split: sum.splits)
  have "adv st1 (snd (match (CHR 0x22) st1))"
    by (rule match_adv [of "CHR 0x22" st1 "fst (match (CHR 0x22) st1)"]) simp
  with advanceWhile_adv [OF w] emit_state [OF e] show ?thesis
    by (blast intro: adv_trans)
qed

lemma scanIdentifier_adv: "scanIdentifier st tokens = Inr (st', tokens') \<Longrightarrow> adv st st'"
  by (auto simp: scanIdentifier_def split: sum.splits option.splits if_splits
           dest!: emit_state dest: advanceWhile_adv)


lemma hexPrefix_adv:
  "(if c = CHR ''0'' then
      (case match (CHR ''x'') st of (True, s1) \<Rightarrow> (True, s1) | (False, s1) \<Rightarrow> match (CHR ''X'') s1)
    else (False, st)) = (m, st') \<Longrightarrow> adv st st'"
  by (auto simp: adv_refl split: if_splits prod.splits bool.splits
           dest!: match_adv intro: adv_trans)

lemma exponent_adv:
  "(case match (CHR ''e'') st of
      (True, st5) \<Rightarrow>
        (case (if peek st5 = CHR ''-'' \<or> peek st5 = CHR ''+''
               then map_sum id snd (advance st5) else Inr st5) of
           Inl e \<Rightarrow> Inl e
         | Inr st6 \<Rightarrow> advanceWhile (\<lambda>s. isdigit (peek s)) st6)
    | (False, st5) \<Rightarrow> Inr st5) = Inr st' \<Longrightarrow> adv st st'"
proof -
  assume a: "(case match (CHR ''e'') st of
      (True, st5) \<Rightarrow>
        (case (if peek st5 = CHR ''-'' \<or> peek st5 = CHR ''+''
               then map_sum id snd (advance st5) else Inr st5) of
           Inl e \<Rightarrow> Inl e
         | Inr st6 \<Rightarrow> advanceWhile (\<lambda>s. isdigit (peek s)) st6)
    | (False, st5) \<Rightarrow> Inr st5) = Inr st'"
  obtain m st5 where m: "match (CHR ''e'') st = (m, st5)" by (cases "match (CHR ''e'') st")
  note s5 = match_adv [OF m]
  show ?thesis
  proof (cases m)
    case False
    with a m s5 show ?thesis by simp
  next
    case True
    with a m obtain st6 where
      s: "(if peek st5 = CHR ''-'' \<or> peek st5 = CHR ''+''
               then map_sum id snd (advance st5) else Inr st5) = Inr st6"
      and w: "advanceWhile (\<lambda>s. isdigit (peek s)) st6 = Inr st'"
      by (auto split: sum.splits)
    from s have "adv st5 st6"
      by (cases "advance st5") (auto simp: adv_refl split: if_splits dest: advance_adv)
    with s5 advanceWhile_adv [OF w] show ?thesis by (blast intro: adv_trans)
  qed
qed

lemma floatSuffix_adv:
  "(case emplaceToken tokens ty st of
      Inl e \<Rightarrow> Inl e
    | Inr tokens' \<Rightarrow>
        (case advance st of
           Inl e \<Rightarrow> Inl e
         | Inr (x, st8) \<Rightarrow> Inr (st8, tokens'))) = Inr (st', toks') \<Longrightarrow> adv st st'"
  by (auto split: sum.splits dest: advance_adv)

lemma scanNumber_adv: "scanNumber c st tokens = Inr (st', tokens') \<Longrightarrow> adv st st'"
proof -
  assume a: "scanNumber c st tokens = Inr (st', tokens')"
  obtain hex st1 where h: "(if c = CHR ''0'' then
      (case match (CHR ''x'') st of (True, s1) \<Rightarrow> (True, s1) | (False, s1) \<Rightarrow> match (CHR ''X'') s1)
    else (False, st)) = (hex, st1)"
    by (cases "(if c = CHR ''0'' then
      (case match (CHR ''x'') st of (True, s1) \<Rightarrow> (True, s1) | (False, s1) \<Rightarrow> match (CHR ''X'') s1)
    else (False, st))")
  note s1 = hexPrefix_adv [OF h]
  show ?thesis
  proof (cases hex)
    case True
    with a h obtain st2 dot st3 st4 ty st5 where
      w1: "advanceWhile (\<lambda>s. isxdigit (peek s)) st1 = Inr st2"
      and m: "match (CHR ''.'') st2 = (dot, st3)"
      and w2: "advanceWhile (\<lambda>s. isxdigit (peek s))
                 (if dot then error ''Hexadecimal floating pointer literals unsupported.'' st3
                  else st3) = Inr st4"
      and i: "scanIntegerSuffix st4 = Inr (ty, st5)"
      and e: "emit ty st5 tokens = Inr (st', tokens')"
      unfolding scanNumber_def by (auto split: sum.splits prod.splits)
    have "adv st3 (if dot then error ''Hexadecimal floating pointer literals unsupported.'' st3
                  else st3)"
      by (simp add: adv_refl error_adv)
    with s1 advanceWhile_adv [OF w1] match_adv [OF m] advanceWhile_adv [OF w2]
      scanIntegerSuffix_adv [OF i] emit_adv [OF e]
    show ?thesis by (blast intro: adv_trans)
  next
    case False
    show ?thesis
    proof (cases "c = CHR ''0'' \<and> isodigit (peek st1)")
      case True
      with a h False have "st' = error ''Octal literals unsupported.'' st1"
        unfolding scanNumber_def by simp
      with s1 error_adv show ?thesis by (blast intro: adv_trans)
    next
      case noct: False
      with a h False obtain st2 isFloat st3 st4 where
        w1: "advanceWhile (\<lambda>s. isdigit (peek s)) st1 = Inr st2"
        and m: "match (CHR ''.'') st2 = (isFloat, st3)"
        and w2: "advanceWhile (\<lambda>s. isdigit (peek s)) st3 = Inr st4"
        and r: "(if isFloat then
                   (case (case match (CHR ''e'') st4 of
                            (True, st5) \<Rightarrow>
                              (case (if peek st5 = CHR ''-'' \<or> peek st5 = CHR ''+''
                                     then map_sum id snd (advance st5) else Inr st5) of
                                 Inl e \<Rightarrow> Inl e
                               | Inr st6 \<Rightarrow> advanceWhile (\<lambda>s. isdigit (peek s)) st6)
                          | (False, st5) \<Rightarrow> Inr st5) of
                      Inl e \<Rightarrow> Inl e
                    | Inr st7 \<Rightarrow>
                        if tolower (peek st7) = CHR ''f'' then
                          (case emplaceToken tokens FLOAT_NUMBER st7 of
                             Inl e \<Rightarrow> Inl e
                           | Inr tokens' \<Rightarrow>
                               (case advance st7 of
                                  Inl e \<Rightarrow> Inl e
                                | Inr (x, st8) \<Rightarrow> Inr (st8, tokens')))
                        else if tolower (peek st7) = CHR ''d'' then
                          (case emplaceToken tokens DOUBLE_NUMBER st7 of
                             Inl e \<Rightarrow> Inl e
                           | Inr tokens' \<Rightarrow>
                               (case advance st7 of
                                  Inl e \<Rightarrow> Inl e
                                | Inr (x, st8) \<Rightarrow> Inr (st8, tokens')))
                        else
                          (case getScalarTokenType st7 of
                             Inl e \<Rightarrow> Inl e
                           | Inr ty \<Rightarrow> emit ty st7 tokens))
                 else
                   (case scanIntegerSuffix st4 of
                      Inl e \<Rightarrow> Inl e
                    | Inr (ty, st5) \<Rightarrow> emit ty st5 tokens)) = Inr (st', tokens')"
        unfolding scanNumber_def by (simp split: sum.splits prod.splits)
      have "adv st4 st'"
      proof (cases isFloat)
        case False
        with r show ?thesis
          by (auto split: sum.splits dest!: emit_state dest: scanIntegerSuffix_adv)
      next
        case True
        with r obtain st7 where
          x: "(case match (CHR ''e'') st4 of
                (True, st5) \<Rightarrow>
                  (case (if peek st5 = CHR ''-'' \<or> peek st5 = CHR ''+''
                         then map_sum id snd (advance st5) else Inr st5) of
                     Inl e \<Rightarrow> Inl e
                   | Inr st6 \<Rightarrow> advanceWhile (\<lambda>s. isdigit (peek s)) st6)
              | (False, st5) \<Rightarrow> Inr st5) = Inr st7"
          and y: "(if tolower (peek st7) = CHR ''f'' then
                          (case emplaceToken tokens FLOAT_NUMBER st7 of
                             Inl e \<Rightarrow> Inl e
                           | Inr tokens' \<Rightarrow>
                               (case advance st7 of
                                  Inl e \<Rightarrow> Inl e
                                | Inr (x, st8) \<Rightarrow> Inr (st8, tokens')))
                        else if tolower (peek st7) = CHR ''d'' then
                          (case emplaceToken tokens DOUBLE_NUMBER st7 of
                             Inl e \<Rightarrow> Inl e
                           | Inr tokens' \<Rightarrow>
                               (case advance st7 of
                                  Inl e \<Rightarrow> Inl e
                                | Inr (x, st8) \<Rightarrow> Inr (st8, tokens')))
                        else
                          (case getScalarTokenType st7 of
                             Inl e \<Rightarrow> Inl e
                           | Inr ty \<Rightarrow> emit ty st7 tokens)) = Inr (st', tokens')"
          by (simp split: sum.splits)
        from y have "adv st7 st'"
          by (auto split: if_splits sum.splits dest!: emit_state dest: advance_adv simp: adv_refl)
        with exponent_adv [OF x] show ?thesis by (blast intro: adv_trans)
      qed
      with s1 advanceWhile_adv [OF w1] match_adv [OF m] advanceWhile_adv [OF w2]
      show ?thesis by (blast intro: adv_trans)
    qed
  qed
qed

lemma nextLine_adv: "adv st (nextLine st)"
  by (simp add: nextLine_def adv_def)

lemma matchThen_adv:
  assumes "(case match c st of (True, st1) \<Rightarrow> f st1 | (False, st1) \<Rightarrow> g st1) = Inr (st', tokens')"
    and "\<And>st1. f st1 = Inr (st', tokens') \<Longrightarrow> adv st1 st'"
    and "\<And>st1. g st1 = Inr (st', tokens') \<Longrightarrow> adv st1 st'"
  shows "adv st st'"
proof -
  obtain m st1 where m: "match c st = (m, st1)" by (cases "match c st")
  with assms have "adv st1 st'" by (cases m) auto
  with match_adv [OF m] show ?thesis by (blast intro: adv_trans)
qed

lemma if_resultE:
  assumes "(if b then x else y) = r"
  obtains "x = r" | "y = r"
  using assms by (cases b) auto

lemma scanTokenSwitch_adv:
  assumes "scanTokenSwitch c st tokens = Inr (st', tokens')"
  shows "adv st st'"
  using assms unfolding scanTokenSwitch_def
  apply (elim if_resultE)
  apply (erule emit_adv emitMatch_adv scanString_adv scanNumber_adv scanIdentifier_adv
         | erule matchThen_adv
         | (auto simp: adv_refl nextLine_adv error_adv split: sum.splits dest: advanceWhile_adv)[1])+
  done

lemma scanToken_advances:
  assumes "scanToken st tokens = Inr (st', tokens')"
  shows "m_Source st' = m_Source st \<and> m_Current st < m_Current st'"
proof -
  from assms obtain c st1 where a: "advance st = Inr (c, st1)"
    and s: "scanTokenSwitch c st1 tokens = Inr (st', tokens')"
    unfolding scanToken_def by (auto split: sum.splits)
  from advance_step [OF a] scanTokenSwitch_adv [OF s] show ?thesis by (simp add: adv_def)
qed

function scanLoop :: "ScanState \<Rightarrow> Token list \<Rightarrow> exn + (ScanState \<times> Token list)" where
  "scanLoop scanState tokens =
     (if \<not> isAtEnd scanState then
        (case scanToken (resetLexeme scanState) tokens of
           Inl e \<Rightarrow> Inl e
         | Inr (st', tokens') \<Rightarrow> scanLoop st' tokens')
      else Inr (scanState, tokens))"
  by pat_completeness auto
termination
proof (relation "measure (\<lambda>(st, tokens). length (m_Source st) - m_Current st)")
  show "wf (measure (\<lambda>(st, tokens). length (m_Source st) - m_Current st))" by simp
next
  fix scanState :: ScanState and tokens :: "Token list" and x2 st' tokens'
  assume ne: "\<not> isAtEnd scanState"
    and "scanToken (resetLexeme scanState) tokens = Inr x2" and "(st', tokens') = x2"
  then have "scanToken (resetLexeme scanState) tokens = Inr (st', tokens')" by simp
  from scanToken_advances [OF this] ne
  show "((st', tokens'), scanState, tokens) \<in> measure (\<lambda>(st, tokens). length (m_Source st) - m_Current st)"
    by (auto simp: resetLexeme_def isAtEnd_def)
qed

declare scanLoop.simps [simp del]

definition scanSource :: "string \<Rightarrow> (string \<rightharpoonup> NumericBase) \<Rightarrow> (nat \<times> string) list
    \<Rightarrow> exn + (Token list \<times> (nat \<times> string) list)" where
  "scanSource source context errorHandler =
     (case scanLoop \<lparr>m_Start = 0, m_Current = 0, m_Line = 1, m_Source = source,
                     m_Context = context, m_ErrorHandler = errorHandler\<rparr> [] of
        Inl e \<Rightarrow> Inl e
      | Inr (scanState, tokens) \<Rightarrow>
          (case emplaceToken tokens END_OF_FILE scanState of
             Inl e \<Rightarrow> Inl e
           | Inr tokens' \<Rightarrow> Inr (tokens', m_ErrorHandler scanState)))"

subsection \<open>parseNumeric (type.cc)\<close>



section \<open>Properties of the scanner\<close>

lemma char_of_upper_UL: "char_of (85::nat) = CHR ''U''" "char_of (76::nat) = CHR ''L''"
  by code_simp+

lemmas scan_eval = char_of_upper_UL scanSource_def scanLoop.simps scanToken_def scanTokenSwitch_def scanNumber_def
  scanString_def scanIdentifier_def emit_def emitMatch_def emplaceToken_def getLexeme_def substr_def
  advance_def string_at_def match_def peek_def isAtEnd_def resetLexeme_def getLine_def nextLine_def error_def
  advanceWhile.simps scanIntegerSuffix_def scanIntegerSuffixLoop.simps integerLiteralTokenTypes_def
  getScalarTokenType_def isdigit_def isodigit_def isxdigit_def isalpha_def isalnum_def
  toupper_def tolower_def isTypedefIdentifier_def keywords_table_def Let_def

subsection \<open>The scanner never reads the error handler\<close>

text \<open>
  \<open>reported eh st\<close> is the scan state \<open>st\<close> with the errors \<open>eh\<close> reported to the handler
  before everything it holds. Every scanning function does on \<open>reported eh st\<close> what it
  does on \<open>st\<close>.
\<close>

definition reported :: "(nat \<times> string) list \<Rightarrow> ScanState \<Rightarrow> ScanState" where
  "reported eh st = st\<lparr>m_ErrorHandler := eh @ m_ErrorHandler st\<rparr>"



lemma reported_fields [simp]:
  "m_Start (reported eh st) = m_Start st"
  "m_Current (reported eh st) = m_Current st"
  "m_Line (reported eh st) = m_Line st"
  "m_Source (reported eh st) = m_Source st"
  "m_Context (reported eh st) = m_Context st"
  "m_ErrorHandler (reported eh st) = eh @ m_ErrorHandler st"
  by (simp_all add: reported_def)

lemma reported_updates [simp]:
  "reported eh st\<lparr>m_Current := n\<rparr> = reported eh (st\<lparr>m_Current := n\<rparr>)"
  "reported eh st\<lparr>m_Start := n\<rparr> = reported eh (st\<lparr>m_Start := n\<rparr>)"
  "reported eh st\<lparr>m_Line := n\<rparr> = reported eh (st\<lparr>m_Line := n\<rparr>)"
  by (simp_all add: reported_def)

lemma isAtEnd_reported [simp]: "isAtEnd (reported eh st) = isAtEnd st"
  by (simp add: isAtEnd_def)

lemma peek_reported [simp]: "peek (reported eh st) = peek st"
  by (simp add: peek_def)

lemma getLine_reported [simp]: "getLine (reported eh st) = getLine st"
  by (simp add: getLine_def)

lemma getLexeme_reported [simp]: "getLexeme (reported eh st) = getLexeme st"
  by (simp add: getLexeme_def)


lemma isTypedefIdentifier_reported [simp]:
  "isTypedefIdentifier l (reported eh st) = isTypedefIdentifier l st"
  by (simp add: isTypedefIdentifier_def)

lemma resetLexeme_reported [simp]: "resetLexeme (reported eh st) = reported eh (resetLexeme st)"
  by (simp add: resetLexeme_def)























subsection \<open>Scanning a literal wherever a token starts\<close>

text \<open>
  \<open>remaining st\<close> is the part of the source that \<open>st\<close> has not consumed, and \<open>skip n st\<close>
  is \<open>st\<close> after \<open>n\<close> more characters.
\<close>

definition remaining :: "ScanState \<Rightarrow> string" where
  "remaining st = drop (m_Current st) (m_Source st)"

definition skip :: "nat \<Rightarrow> ScanState \<Rightarrow> ScanState" where
  "skip n st = st\<lparr>m_Current := m_Current st + n\<rparr>"

lemma skip_0 [simp]: "skip 0 st = st"
  by (simp add: skip_def)

lemma skip_skip [simp]: "skip n (skip m st) = skip (m + n) st"
  by (simp add: skip_def add.assoc)

lemma skip_fields [simp]:
  "m_Start (skip n st) = m_Start st"
  "m_Current (skip n st) = m_Current st + n"
  "m_Line (skip n st) = m_Line st"
  "m_Source (skip n st) = m_Source st"
  "m_Context (skip n st) = m_Context st"
  "m_ErrorHandler (skip n st) = m_ErrorHandler st"
  by (simp_all add: skip_def)



























lemma remaining_error [simp]: "remaining (error msg st) = remaining st"
  by (simp add: remaining_def error_def)

lemma remaining_resetLexeme [simp]: "remaining (resetLexeme st) = remaining st"
  by (simp add: remaining_def resetLexeme_def)























text \<open>The state in which \<open>scanSource\<close> starts its loop.\<close>

definition initialState :: "string \<Rightarrow> (string \<rightharpoonup> NumericBase) \<Rightarrow> (nat \<times> string) list
    \<Rightarrow> ScanState" where
  "initialState source context errorHandler =
     \<lparr>m_Start = 0, m_Current = 0, m_Line = 1, m_Source = source,
      m_Context = context, m_ErrorHandler = errorHandler\<rparr>"


lemma remaining_initialState [simp]: "remaining (initialState source context eh) = source"
  by (simp add: remaining_def initialState_def)



subsection \<open>The claims about the scanner\<close>





text \<open>
  C6. On the input \<open>>>\<close> the \<open>'>'\<close> case of \<open>scanToken\<close> tests \<open>match('<')\<close> where the
  \<open>'<'\<close> case tests \<open>match('<')\<close> too: \<open>>>\<close> is scanned as two GREATER tokens and \<open>>>=\<close>
  as GREATER followed by GREATER_EQUAL, while it is \<open>><\<close> that gives SHIFT_RIGHT and
  \<open>><=\<close> that gives SHIFT_RIGHT_EQUAL. The shift-left tokens are recognised.
\<close>

theorem scan_shift_right:
  "scanSource ''>>'' context eh =
     Inr ([\<lparr>type = GREATER, lexeme = ''>'', line = 1\<rparr>,
           \<lparr>type = GREATER, lexeme = ''>'', line = 1\<rparr>,
           \<lparr>type = END_OF_FILE, lexeme = ''>'', line = 1\<rparr>], eh)
   \<and> scanSource ''>>='' context eh =
     Inr ([\<lparr>type = GREATER, lexeme = ''>'', line = 1\<rparr>,
           \<lparr>type = GREATER_EQUAL, lexeme = ''>='', line = 1\<rparr>,
           \<lparr>type = END_OF_FILE, lexeme = ''>='', line = 1\<rparr>], eh)
   \<and> scanSource ''><'' context eh =
     Inr ([\<lparr>type = SHIFT_RIGHT, lexeme = ''><'', line = 1\<rparr>,
           \<lparr>type = END_OF_FILE, lexeme = ''><'', line = 1\<rparr>], eh)
   \<and> scanSource ''><='' context eh =
     Inr ([\<lparr>type = SHIFT_RIGHT_EQUAL, lexeme = ''><='', line = 1\<rparr>,
           \<lparr>type = END_OF_FILE, lexeme = ''><='', line = 1\<rparr>], eh)
   \<and> scanSource ''<<'' context eh =
     Inr ([\<lparr>type = SHIFT_LEFT, lexeme = ''<<'', line = 1\<rparr>,
           \<lparr>type = END_OF_FILE, lexeme = ''<<'', line = 1\<rparr>], eh)
   \<and> scanSource ''<<='' context eh =
     Inr ([\<lparr>type = SHIFT_LEFT_EQUAL, lexeme = ''<<='', line = 1\<rparr>,
           \<lparr>type = END_OF_FILE, lexeme = ''<<='', line = 1\<rparr>], eh)"
  by (simp add: scan_eval)

text \<open>
  C7. The table \<open>integerLiteralTokenTypes\<close> has entries for the empty suffix set and for
  \<open>{'U'}\<close> only. A suffix with an \<open>L\<close> is read by \<open>scanIntegerSuffix\<close> and then looked up
  with \<open>at\<close>, which raises \<open>std::out_of_range\<close>: \<open>1L\<close>, \<open>1UL\<close> and \<open>1lu\<close> make
  \<open>scanSource\<close> fail, while \<open>1\<close>, \<open>1U\<close> and \<open>1u\<close> give integer tokens.
\<close>

theorem scan_integer_suffix_L:
  "scanSource ''1L'' context eh = Inl OutOfRange
   \<and> scanSource ''1UL'' context eh = Inl OutOfRange
   \<and> scanSource ''1lu'' context eh = Inl OutOfRange
   \<and> integerLiteralTokenTypes {CHR ''L''} = None
   \<and> integerLiteralTokenTypes {CHR ''U'', CHR ''L''} = None
   \<and> scanSource ''1'' context eh =
     Inr ([\<lparr>type = INT32_NUMBER, lexeme = ''1'', line = 1\<rparr>,
           \<lparr>type = END_OF_FILE, lexeme = ''1'', line = 1\<rparr>], eh)
   \<and> scanSource ''1U'' context eh =
     Inr ([\<lparr>type = UINT32_NUMBER, lexeme = ''1U'', line = 1\<rparr>,
           \<lparr>type = END_OF_FILE, lexeme = ''1U'', line = 1\<rparr>], eh)
   \<and> scanSource ''1u'' context eh =
     Inr ([\<lparr>type = UINT32_NUMBER, lexeme = ''1u'', line = 1\<rparr>,
           \<lparr>type = END_OF_FILE, lexeme = ''1u'', line = 1\<rparr>], eh)"
  by (simp add: scan_eval)




text \<open>
  C10. Whenever \<open>scanSource\<close> returns a token sequence, the sequence is not empty and
  its last token is END_OF_FILE; the empty source gives exactly one END_OF_FILE token.
\<close>

theorem scanSource_ends_with_END_OF_FILE:
  "(scanSource source context eh = Inr (tokens, errs) \<longrightarrow>
      tokens \<noteq> [] \<and> type (last tokens) = END_OF_FILE)
   \<and> scanSource [] context eh = Inr ([\<lparr>type = END_OF_FILE, lexeme = [], line = 1\<rparr>], eh)"
proof
  show "scanSource source context eh = Inr (tokens, errs) \<longrightarrow>
      tokens \<noteq> [] \<and> type (last tokens) = END_OF_FILE"
    by (auto simp: scanSource_def emplaceToken_def split: sum.splits)
  show "scanSource [] context eh = Inr ([\<lparr>type = END_OF_FILE, lexeme = [], line = 1\<rparr>], eh)"
    by (simp add: scan_eval)
qed

theorem scanSource_ends_with_END_OF_FILE_witness:
  "scanSource ''x = 1.5f;'' Map.empty [] =
     Inr ([\<lparr>type = IDENTIFIER, lexeme = ''x'', line = 1\<rparr>,
           \<lparr>type = EQUAL, lexeme = ''='', line = 1\<rparr>,
           \<lparr>type = FLOAT_NUMBER, lexeme = ''1.5'', line = 1\<rparr>,
           \<lparr>type = SEMICOLON, lexeme = '';'', line = 1\<rparr>,
           \<lparr>type = END_OF_FILE, lexeme = '';'', line = 1\<rparr>], [])
   \<and> type (last [\<lparr>type = IDENTIFIER, lexeme = ''x'', line = 1\<rparr>,
           \<lparr>type = EQUAL, lexeme = ''='', line = 1\<rparr>,
           \<lparr>type = FLOAT_NUMBER, lexeme = ''1.5'', line = 1\<rparr>,
           \<lparr>type = SEMICOLON, lexeme = '';'', line = 1\<rparr>,
           \<lparr>type = END_OF_FILE, lexeme = '';'', line = 1\<rparr>]) = END_OF_FILE"
proof -
  have s: "scanSource ''x = 1.5f;'' Map.empty [] =
     Inr ([\<lparr>type = IDENTIFIER, lexeme = ''x'', line = 1\<rparr>,
           \<lparr>type = EQUAL, lexeme = ''='', line = 1\<rparr>,
           \<lparr>type = FLOAT_NUMBER, lexeme = ''1.5'', line = 1\<rparr>,
           \<lparr>type = SEMICOLON, lexeme = '';'', line = 1\<rparr>,
           \<lparr>type = END_OF_FILE, lexeme = '';'', line = 1\<rparr>], [])"
    by code_simp
  from scanSource_ends_with_END_OF_FILE [of "''x = 1.5f;''" Map.empty "[]"] s
  show ?thesis by simp
qed

section \<open>Common type of two numeric types (type.cc)\<close>

text \<open>
  Modelled from the spec: the interface of \<open>NumericBase\<close>, declared in type.h, which is
  outside the files modelled here. The spec fixes rank(int8) < rank(int16) < rank(int32),
  with the unsigned variants at the rank of their signed type, bool below all of them and
  the floating types apart from the integer ranks; signedness and the value range are
  those of the underlying C type (\<open>std::is_signed\<close>, \<open>std::numeric_limits\<close> min and max).
\<close>

definition getTypeName :: "NumericBase \<Rightarrow> string" where
  "getTypeName t = (case t of
       Bool \<Rightarrow> ''bool'' | Int8 \<Rightarrow> ''int8_t'' | Int16 \<Rightarrow> ''int16_t'' | Int32 \<Rightarrow> ''int32_t''
     | Uint8 \<Rightarrow> ''uint8_t'' | Uint16 \<Rightarrow> ''uint16_t'' | Uint32 \<Rightarrow> ''uint32_t''
     | Float \<Rightarrow> ''float'' | Double \<Rightarrow> ''double'')"

definition getRank :: "NumericBase \<Rightarrow> int" where
  "getRank t = (case t of
       Bool \<Rightarrow> 0 | Int8 \<Rightarrow> 10 | Int16 \<Rightarrow> 20 | Int32 \<Rightarrow> 30
     | Uint8 \<Rightarrow> 10 | Uint16 \<Rightarrow> 20 | Uint32 \<Rightarrow> 30
     | Float \<Rightarrow> 50 | Double \<Rightarrow> 60)"

definition isSigned :: "NumericBase \<Rightarrow> bool" where
  "isSigned t = (case t of
       Bool \<Rightarrow> False | Int8 \<Rightarrow> True | Int16 \<Rightarrow> True | Int32 \<Rightarrow> True
     | Uint8 \<Rightarrow> False | Uint16 \<Rightarrow> False | Uint32 \<Rightarrow> False
     | Float \<Rightarrow> True | Double \<Rightarrow> True)"

definition getMin :: "NumericBase \<Rightarrow> rat" where
  "getMin t = (case t of
       Bool \<Rightarrow> 0 | Int8 \<Rightarrow> - (2 ^ 7) | Int16 \<Rightarrow> - (2 ^ 15) | Int32 \<Rightarrow> - (2 ^ 31)
     | Uint8 \<Rightarrow> 0 | Uint16 \<Rightarrow> 0 | Uint32 \<Rightarrow> 0
     | Float \<Rightarrow> 1 / 2 ^ 126 | Double \<Rightarrow> 1 / 2 ^ 1022)"

definition getMax :: "NumericBase \<Rightarrow> rat" where
  "getMax t = (case t of
       Bool \<Rightarrow> 1 | Int8 \<Rightarrow> 2 ^ 7 - 1 | Int16 \<Rightarrow> 2 ^ 15 - 1 | Int32 \<Rightarrow> 2 ^ 31 - 1
     | Uint8 \<Rightarrow> 2 ^ 8 - 1 | Uint16 \<Rightarrow> 2 ^ 16 - 1 | Uint32 \<Rightarrow> 2 ^ 32 - 1
     | Float \<Rightarrow> (2 ^ 24 - 1) * 2 ^ 104 | Double \<Rightarrow> (2 ^ 53 - 1) * 2 ^ 971)"

text \<open>The table \<open>unsignedType\<close> of type.cc: signed integer types to their unsigned equivalents.\<close>

definition unsignedType :: "NumericBase \<rightharpoonup> NumericBase" where
  "unsignedType = map_of [(Int8, Uint8), (Int16, Uint16), (Int32, Uint32)]"

definition getPromotedType :: "NumericBase \<Rightarrow> NumericBase" where
  "getPromotedType t = (if getRank t < getRank Int32 then Int32 else t)"

definition getCommonType :: "NumericBase \<Rightarrow> NumericBase \<Rightarrow> exn + NumericBase" where
  "getCommonType a b =
     (let aTypeName = getTypeName a; bTypeName = getTypeName b in
      if aTypeName = getTypeName Double \<or> bTypeName = getTypeName Double then Inr Double
      else if aTypeName = getTypeName Float \<or> bTypeName = getTypeName Float then Inr Float
      else
        (let aPromoted = getPromotedType a; bPromoted = getPromotedType b in
         if getTypeName aPromoted = getTypeName bPromoted then Inr aPromoted
         else if isSigned aPromoted = isSigned bPromoted then
           Inr (if getRank aPromoted > getRank bPromoted then aPromoted else bPromoted)
         else
           (let signedOp = (if isSigned aPromoted then aPromoted else bPromoted);
                unsignedOp = (if isSigned aPromoted then bPromoted else aPromoted) in
            if getRank unsignedOp \<ge> getRank signedOp then Inr unsignedOp
            else if getMin signedOp \<le> getMin unsignedOp \<and> getMax signedOp \<ge> getMax unsignedOp then
              Inr signedOp
            else
              (case unsignedType signedOp of
                 None \<Rightarrow> Inl OutOfRange
               | Some u \<Rightarrow> Inr u))))"

section \<open>Properties of the common type\<close>

lemmas type_eval = getCommonType_def getPromotedType_def getTypeName_def getRank_def isSigned_def
  getMin_def getMax_def unsignedType_def Let_def

text \<open>
  C4, as stated, fails: the common type of int8 with itself is int32, not int8.
\<close>

theorem getCommonType_same_counterexample:
  "getCommonType Int8 Int8 = Inr Int32 \<and> getCommonType Int8 Int8 \<noteq> Inr Int8"
  by (simp add: type_eval)

text \<open>
  C4, amended. \<open>getCommonType\<close> is commutative and idempotent (the common type of a
  result with itself is that result), and \<open>getCommonType(a,a)\<close> is the promoted type of
  \<open>a\<close>: it equals \<open>a\<close> exactly for int32, uint32, float and double, and is int32 for bool
  and the 8- and 16-bit integer types.
\<close>

theorem getCommonType_algebra:
  "getCommonType a b = getCommonType b a
   \<and> (\<exists>c. getCommonType a b = Inr c \<and> getCommonType c c = Inr c)
   \<and> getCommonType a a = Inr (getPromotedType a)
   \<and> (getCommonType a a = Inr a) = (a \<in> {Int32, Uint32, Float, Double})
   \<and> getCommonType Bool Bool = Inr Int32
   \<and> getCommonType Int8 Int8 = Inr Int32 \<and> getCommonType Uint8 Uint8 = Inr Int32
   \<and> getCommonType Int16 Int16 = Inr Int32 \<and> getCommonType Uint16 Uint16 = Inr Int32"
  by (cases a; cases b; simp add: type_eval)

section \<open>Presynaptic update strategy registry (backendSIMT.cc)\<close>

text \<open>
  The registry \<open>s_PresynapticUpdateStrategies\<close> is a vector of pointers to strategies. A
  strategy is a value of a type \<open>'s\<close>; its virtual \<open>isCompatible\<close> and the synapse group's
  \<open>getName\<close> live in headers outside the files modelled here and are parameters.
\<close>

datatype BuiltinStrategy = PreSpan | PostSpan | PreSpanProcedural | PostSpanBitmask

definition s_PresynapticUpdateStrategies :: "BuiltinStrategy list" where
  "s_PresynapticUpdateStrategies = [PreSpan, PostSpan, PreSpanProcedural, PostSpanBitmask]"

definition addPresynapticUpdateStrategy :: "'s list \<Rightarrow> 's \<Rightarrow> 's list" where
  "addPresynapticUpdateStrategy strategies strategy = strategies @ [strategy]"

text \<open>The loop from \<open>rbegin()\<close> to \<open>rend()\<close>, on the strategies in reverse order.\<close>

fun firstCompatible :: "('s \<Rightarrow> bool) \<Rightarrow> 's list \<Rightarrow> 's option" where
  "firstCompatible compatible [] = None"
| "firstCompatible compatible (s # ss) =
     (if compatible s then Some s else firstCompatible compatible ss)"

definition getPresynapticUpdateStrategy ::
  "'s list \<Rightarrow> ('s \<Rightarrow> 'sg \<Rightarrow> 'p \<Rightarrow> bool) \<Rightarrow> ('sg \<Rightarrow> string) \<Rightarrow> 'sg \<Rightarrow> 'p \<Rightarrow> exn + 's" where
  "getPresynapticUpdateStrategy strategies isCompatible getName sg preferences =
     (case firstCompatible (\<lambda>s. isCompatible s sg preferences) (rev strategies) of
        Some s \<Rightarrow> Inr s
      | None \<Rightarrow> Inl (RuntimeError
          (''Unable to find a suitable presynaptic update strategy for synapse group ''
             @ [CHR 0x27] @ getName sg @ [CHR 0x27])))"

section \<open>Properties of the strategy registry\<close>

lemma firstCompatible_None:
  "firstCompatible P xs = None \<longleftrightarrow> (\<forall>x \<in> set xs. \<not> P x)"
  by (induction xs) auto

lemma firstCompatible_rev_snoc:
  "firstCompatible P (rev (xs @ [x])) = (if P x then Some x else firstCompatible P (rev xs))"
  by simp

lemma firstCompatible_rev_last:
  assumes "i < length xs" and "P (xs ! i)" and "\<forall>j. i < j \<and> j < length xs \<longrightarrow> \<not> P (xs ! j)"
  shows "firstCompatible P (rev xs) = Some (xs ! i)"
  using assms
proof (induction xs rule: rev_induct)
  case Nil
  then show ?case by simp
next
  case (snoc x xs)
  show ?case
  proof (cases "i = length xs")
    case True
    with snoc.prems show ?thesis by simp
  next
    case False
    with snoc.prems have i: "i < length xs" by simp
    from snoc.prems i have nl: "\<not> P x"
      by (metis length_append_singleton lessI nth_append_length)
    have "\<forall>j. i < j \<and> j < length xs \<longrightarrow> \<not> P (xs ! j)"
    proof (intro allI impI)
      fix j assume j: "i < j \<and> j < length xs"
      with snoc.prems(3) have "\<not> P ((xs @ [x]) ! j)" by simp
      with j show "\<not> P (xs ! j)" by (simp add: nth_append)
    qed
    with snoc.IH i snoc.prems(2) have "firstCompatible P (rev xs) = Some (xs ! i)"
      by (simp add: nth_append)
    with nl i show ?thesis by (simp add: nth_append)
  qed
qed

text \<open>
  C3. \<open>getPresynapticUpdateStrategy\<close> returns the compatible strategy registered last:
  the strategy at index \<open>i\<close> when it is compatible and no strategy registered after it is,
  so of two compatible strategies never the earlier one, and a compatible strategy just
  added with \<open>addPresynapticUpdateStrategy\<close> wins over all others. If no registered
  strategy is compatible, it fails with the runtime error whose message carries the name
  of the synapse group.
\<close>

theorem getPresynapticUpdateStrategy_last_compatible:
  "(\<forall>i < length strategies.
       isCompatible (strategies ! i) sg preferences
       \<and> (\<forall>j. i < j \<and> j < length strategies \<longrightarrow> \<not> isCompatible (strategies ! j) sg preferences)
      \<longrightarrow> getPresynapticUpdateStrategy strategies isCompatible getName sg preferences
            = Inr (strategies ! i))
   \<and> (isCompatible strategy sg preferences
      \<longrightarrow> getPresynapticUpdateStrategy (addPresynapticUpdateStrategy strategies strategy)
            isCompatible getName sg preferences = Inr strategy)
   \<and> ((\<forall>s \<in> set strategies. \<not> isCompatible s sg preferences)
      \<longrightarrow> getPresynapticUpdateStrategy strategies isCompatible getName sg preferences
            = Inl (RuntimeError
                (''Unable to find a suitable presynaptic update strategy for synapse group ''
                   @ [CHR 0x27] @ getName sg @ [CHR 0x27])))"
proof (intro conjI allI impI)
  fix i
  assume "i < length strategies"
    and "isCompatible (strategies ! i) sg preferences
       \<and> (\<forall>j. i < j \<and> j < length strategies \<longrightarrow> \<not> isCompatible (strategies ! j) sg preferences)"
  then have "firstCompatible (\<lambda>s. isCompatible s sg preferences) (rev strategies)
      = Some (strategies ! i)"
    by (intro firstCompatible_rev_last) auto
  then show "getPresynapticUpdateStrategy strategies isCompatible getName sg preferences
      = Inr (strategies ! i)"
    by (simp add: getPresynapticUpdateStrategy_def)
next
  assume "isCompatible strategy sg preferences"
  then show "getPresynapticUpdateStrategy (addPresynapticUpdateStrategy strategies strategy)
            isCompatible getName sg preferences = Inr strategy"
    by (simp add: getPresynapticUpdateStrategy_def addPresynapticUpdateStrategy_def)
next
  assume "\<forall>s \<in> set strategies. \<not> isCompatible s sg preferences"
  then have "firstCompatible (\<lambda>s. isCompatible s sg preferences) (rev strategies) = None"
    by (simp add: firstCompatible_None)
  then show "getPresynapticUpdateStrategy strategies isCompatible getName sg preferences
            = Inl (RuntimeError
                (''Unable to find a suitable presynaptic update strategy for synapse group ''
                   @ [CHR 0x27] @ getName sg @ [CHR 0x27]))"
    by (simp add: getPresynapticUpdateStrategy_def)
qed

text \<open>
  The built-in registry with a synapse group that \<open>PreSpan\<close> and \<open>PostSpan\<close> accept:
  \<open>PostSpan\<close>, registered later, is selected; a strategy added afterwards that accepts the
  group is selected instead; and when nothing accepts the group the error names it.
\<close>

theorem getPresynapticUpdateStrategy_last_compatible_witness:
  "getPresynapticUpdateStrategy s_PresynapticUpdateStrategies
      (\<lambda>s sg p. s = PreSpan \<or> s = PostSpan) (\<lambda>sg. sg) ''Syn'' () = Inr PostSpan
   \<and> getPresynapticUpdateStrategy (addPresynapticUpdateStrategy s_PresynapticUpdateStrategies PreSpan)
      (\<lambda>s sg p. s = PreSpan \<or> s = PostSpan) (\<lambda>sg. sg) ''Syn'' () = Inr PreSpan
   \<and> getPresynapticUpdateStrategy s_PresynapticUpdateStrategies
      (\<lambda>s sg p. False) (\<lambda>sg. sg) ''Syn'' ()
      = Inl (RuntimeError (''Unable to find a suitable presynaptic update strategy for synapse group ''
             @ [CHR 0x27] @ ''Syn'' @ [CHR 0x27]))"
proof -
  let ?c = "\<lambda>(s::BuiltinStrategy) (sg::string) (p::unit). s = PreSpan \<or> s = PostSpan"
  have l: "(1::nat) < length s_PresynapticUpdateStrategies"
    by (simp add: s_PresynapticUpdateStrategies_def)
  have c: "?c (s_PresynapticUpdateStrategies ! 1) ''Syn'' ()
       \<and> (\<forall>j. 1 < j \<and> j < length s_PresynapticUpdateStrategies
              \<longrightarrow> \<not> ?c (s_PresynapticUpdateStrategies ! j) ''Syn'' ())"
  proof (intro conjI allI impI)
    show "?c (s_PresynapticUpdateStrategies ! 1) ''Syn'' ()"
      by (simp add: s_PresynapticUpdateStrategies_def)
    fix j assume "1 < j \<and> j < length s_PresynapticUpdateStrategies"
    then have "j = 2 \<or> j = 3" by (auto simp: s_PresynapticUpdateStrategies_def)
    then show "\<not> ?c (s_PresynapticUpdateStrategies ! j) ''Syn'' ()"
      by (auto simp: s_PresynapticUpdateStrategies_def)
  qed
  have n: "\<forall>s \<in> set s_PresynapticUpdateStrategies. \<not> (\<lambda>s sg p. False) s ''Syn'' ()" by simp
  have p: "s_PresynapticUpdateStrategies ! 1 = PostSpan"
    by (simp add: s_PresynapticUpdateStrategies_def)
  from getPresynapticUpdateStrategy_last_compatible
         [of s_PresynapticUpdateStrategies ?c "''Syn''" "()" "\<lambda>sg. sg" PreSpan] l c p
  have a: "getPresynapticUpdateStrategy s_PresynapticUpdateStrategies ?c (\<lambda>sg. sg) ''Syn'' () = Inr PostSpan"
    and b: "getPresynapticUpdateStrategy (addPresynapticUpdateStrategy s_PresynapticUpdateStrategies PreSpan)
      ?c (\<lambda>sg. sg) ''Syn'' () = Inr PreSpan"
    by (metis, simp)
  from getPresynapticUpdateStrategy_last_compatible
         [of s_PresynapticUpdateStrategies "\<lambda>s sg p. False" "''Syn''" "()" "\<lambda>sg. sg" PreSpan] n
  have d: "getPresynapticUpdateStrategy s_PresynapticUpdateStrategies
      (\<lambda>s sg p. False) (\<lambda>sg. sg) ''Syn'' ()
      = Inl (RuntimeError (''Unable to find a suitable presynaptic update strategy for synapse group ''
             @ [CHR 0x27] @ ''Syn'' @ [CHR 0x27]))"
    by simp
  from a b d show ?thesis by simp
qed

section \<open>Thread layout of the kernels (backendSIMT.cc)\<close>

text \<open>
  The parts of the model graph the kernels and \<open>stepTime\<close> read. A neuron group's
  merged incoming synapse populations (\<open>getMergedInSyn\<close>) are pairs of a synapse group and
  the synapse groups merged with it. Of a synapse group's matrix type the kernels test
  \<open>getMatrixType() & SynapseMatrixConnectivity::SPARSE\<close>, the field
  \<open>matrixConnectivitySparse\<close>; \<open>srcNumNeurons\<close> and \<open>trgNumNeurons\<close> are
  \<open>getSrcNeuronGroup()->getNumNeurons()\<close> and \<open>getTrgNeuronGroup()->getNumNeurons()\<close>.
\<close>

record SynapseGroupInternal =
  psModelTargetName :: string
  dendriticDelayRequired :: bool
  maxDendriticDelayTimesteps :: nat
  matrixConnectivitySparse :: bool
  maxConnections :: nat
  maxSourceConnections :: nat
  srcNumNeurons :: nat
  trgNumNeurons :: nat

record NeuronGroupInternal =
  numNeurons :: nat
  delayRequired :: bool
  numDelaySlots :: nat
  prevSpikeTimeRequired :: bool
  prevSpikeEventTimeRequired :: bool
  mergedInSyn :: "(SynapseGroupInternal \<times> SynapseGroupInternal list) list"

record CustomUpdateInternal =
  getSize :: nat
  updateGroupName :: string

record CustomUpdateWUInternal =
  synapseGroup :: SynapseGroupInternal

text \<open>
  A merged group: its index and its groups, the first of which is the archetype. The list
  of groups is kept as the archetype and the groups after it, so that it is never empty.
\<close>

record 'g GroupMerged =
  index :: nat
  archetype :: 'g
  otherGroups :: "'g list"

definition getGroups :: "'g GroupMerged \<Rightarrow> 'g list" where
  "getGroups n = archetype n # otherGroups n"

text \<open>
  Modelled from the spec: the backend hook \<open>padSize(n, blockSize)\<close>, declared in a header
  outside the files modelled here: \<open>n\<close> rounded up to a multiple of the block size
  (\<open>pad(100,32) = 128\<close>, \<open>pad(250,32) = 256\<close>). Sizes are \<open>size_t\<close> in the source and
  natural numbers here.
\<close>

definition padSize :: "nat \<Rightarrow> nat \<Rightarrow> nat" where
  "padSize n blockSize = ((n + blockSize - 1) div blockSize) * blockSize"

text \<open>
  The range test a kernel emits in front of a merged group's code: \<open>IdBelow hi\<close> is the
  text \<open>if(id < hi)\<close>, emitted while \<open>idStart\<close> is 0, and \<open>IdBetween lo hi\<close> the text
  \<open>if(id >= lo && id < hi)\<close>. \<open>holds\<close> evaluates the test on a thread id and \<open>numThreads\<close>
  is the number of ids between its bounds. The code emitted inside the test is left out.
\<close>

datatype RangeTest = IdBelow nat | IdBetween nat nat

fun holds :: "RangeTest \<Rightarrow> nat \<Rightarrow> bool" where
  "holds (IdBelow hi) tid = (tid < hi)"
| "holds (IdBetween lo hi) tid = (tid \<ge> lo \<and> tid < hi)"

fun numThreads :: "RangeTest \<Rightarrow> nat" where
  "numThreads (IdBelow hi) = hi"
| "numThreads (IdBetween lo hi) = hi - lo"

definition genRangeTest :: "nat \<Rightarrow> nat \<Rightarrow> RangeTest" where
  "genRangeTest idStart n = (if idStart = 0 then IdBelow n else IdBetween idStart (idStart + n))"

text \<open>
  \<open>genPreNeuronResetKernel\<close>: the loop over the merged spike queue update groups, with the
  stream \<open>os\<close> of range tests emitted so far and \<open>idStart\<close>; the result is the stream and
  the final \<open>idStart\<close>. \<open>blockSize\<close> is \<open>getKernelBlockSize(KernelPreNeuronReset)\<close>.
\<close>

fun genPreNeuronResetKernelLoop ::
  "nat \<Rightarrow> NeuronGroupInternal GroupMerged list \<Rightarrow> RangeTest list \<Rightarrow> nat \<Rightarrow> RangeTest list \<times> nat" where
  "genPreNeuronResetKernelLoop blockSize [] os idStart = (os, idStart)"
| "genPreNeuronResetKernelLoop blockSize (n # ns) os idStart =
     (if prevSpikeTimeRequired (archetype n) \<or> prevSpikeEventTimeRequired (archetype n) then
        (let paddedSize = foldl (\<lambda>acc g. acc + padSize (numNeurons g) blockSize) 0 (getGroups n)
         in genPreNeuronResetKernelLoop blockSize ns
              (os @ [genRangeTest idStart paddedSize]) (idStart + paddedSize))
      else
        genPreNeuronResetKernelLoop blockSize ns
          (os @ [genRangeTest idStart (length (getGroups n))]) (idStart + length (getGroups n)))"

definition genPreNeuronResetKernel ::
  "nat \<Rightarrow> NeuronGroupInternal GroupMerged list \<Rightarrow> RangeTest list \<times> nat" where
  "genPreNeuronResetKernel blockSize mergedNeuronSpikeQueueUpdateGroups =
     genPreNeuronResetKernelLoop blockSize mergedNeuronSpikeQueueUpdateGroups [] 0"

text \<open>\<open>genPreSynapseResetKernel\<close>, over the merged dendritic delay update groups.\<close>

fun genPreSynapseResetKernelLoop ::
  "SynapseGroupInternal GroupMerged list \<Rightarrow> RangeTest list \<Rightarrow> nat \<Rightarrow> RangeTest list \<times> nat" where
  "genPreSynapseResetKernelLoop [] os idStart = (os, idStart)"
| "genPreSynapseResetKernelLoop (n # ns) os idStart =
     genPreSynapseResetKernelLoop ns
       (os @ [genRangeTest idStart (length (getGroups n))]) (idStart + length (getGroups n))"

definition genPreSynapseResetKernel ::
  "SynapseGroupInternal GroupMerged list \<Rightarrow> RangeTest list \<times> nat" where
  "genPreSynapseResetKernel mergedSynapseDendriticDelayUpdateGroups =
     genPreSynapseResetKernelLoop mergedSynapseDendriticDelayUpdateGroups [] 0"

subsection \<open>The kernels emitted through the parallel-group dispatch\<close>

text \<open>The numbers of threads a group needs, static functions of the backend.\<close>

definition getNumPresynapticUpdateThreads ::
  "'s list \<Rightarrow> ('s \<Rightarrow> SynapseGroupInternal \<Rightarrow> 'p \<Rightarrow> bool) \<Rightarrow> (SynapseGroupInternal \<Rightarrow> string)
     \<Rightarrow> ('s \<Rightarrow> SynapseGroupInternal \<Rightarrow> nat) \<Rightarrow> SynapseGroupInternal \<Rightarrow> 'p \<Rightarrow> exn + nat" where
  "getNumPresynapticUpdateThreads strategies isCompatible getName getNumThreads sg preferences =
     (case getPresynapticUpdateStrategy strategies isCompatible getName sg preferences of
        Inl e \<Rightarrow> Inl e
      | Inr strategy \<Rightarrow> Inr (getNumThreads strategy sg))"

definition getNumPostsynapticUpdateThreads :: "SynapseGroupInternal \<Rightarrow> nat" where
  "getNumPostsynapticUpdateThreads sg =
     (if matrixConnectivitySparse sg then maxSourceConnections sg else srcNumNeurons sg)"

definition getNumSynapseDynamicsThreads :: "SynapseGroupInternal \<Rightarrow> nat" where
  "getNumSynapseDynamicsThreads sg =
     (if matrixConnectivitySparse sg then srcNumNeurons sg * maxConnections sg
      else srcNumNeurons sg * trgNumNeurons sg)"

definition getNumCustomUpdateWUThreads :: "CustomUpdateWUInternal \<Rightarrow> nat" where
  "getNumCustomUpdateWUThreads cg =
     (let sgInternal = synapseGroup cg
      in if matrixConnectivitySparse sgInternal
         then srcNumNeurons sgInternal * maxConnections sgInternal
         else srcNumNeurons sgInternal * trgNumNeurons sgInternal)"

text \<open>
  Modelled from the spec: the sum of the padded sizes of the members of a merged group,
  the accumulation at the head of the parallel-group dispatch, written as in the padded
  branch of \<open>genPreNeuronResetKernel\<close>. The function that gives a member's padded size
  may raise, which ends the accumulation.
\<close>

fun sumPaddedSizes :: "('g \<Rightarrow> exn + nat) \<Rightarrow> nat \<Rightarrow> 'g list \<Rightarrow> exn + nat" where
  "sumPaddedSizes getPaddedSizeFunc acc [] = Inr acc"
| "sumPaddedSizes getPaddedSizeFunc acc (g # gs) =
     (case getPaddedSizeFunc g of
        Inl e \<Rightarrow> Inl e
      | Inr n \<Rightarrow> sumPaddedSizes getPaddedSizeFunc (acc + n) gs)"

text \<open>
  Modelled from the spec: the parallel-group dispatch \<open>genParallelGroup\<close>, a template of
  a header outside the files modelled here. For each merged group that passes the filter
  it emits the range test \<open>if(id >= start && id < start + padded)\<close> and adds \<open>padded\<close> to
  \<open>idStart\<close>, where \<open>padded\<close> is the sum of the padded sizes of the members of the merged
  group. An exception of the padded-size function ends the dispatch; the call without a
  filter takes every merged group.
\<close>

fun genParallelGroup ::
  "('g GroupMerged \<Rightarrow> bool) \<Rightarrow> ('g \<Rightarrow> exn + nat) \<Rightarrow> 'g GroupMerged list \<Rightarrow> RangeTest list \<Rightarrow> nat
     \<Rightarrow> exn + (RangeTest list \<times> nat)" where
  "genParallelGroup filterFunc getPaddedSizeFunc [] os idStart = Inr (os, idStart)"
| "genParallelGroup filterFunc getPaddedSizeFunc (gMerge # groups) os idStart =
     (if filterFunc gMerge then
        (case sumPaddedSizes getPaddedSizeFunc 0 (getGroups gMerge) of
           Inl e \<Rightarrow> Inl e
         | Inr paddedSize \<Rightarrow>
             genParallelGroup filterFunc getPaddedSizeFunc groups
               (os @ [IdBetween idStart (idStart + paddedSize)]) (idStart + paddedSize))
      else genParallelGroup filterFunc getPaddedSizeFunc groups os idStart)"

text \<open>
  The kernel emitters, reduced to what they do to the stream of range tests and to
  \<open>idStart\<close>; \<open>blockSize\<close> is the block size of the emitter's kernel,
  \<open>getKernelBlockSize(KernelNeuronUpdate)\<close> and so on. The emitters of the custom update
  and sparse initialisation kernels do not reset \<open>idStart\<close> but go on from the one they
  are given.
\<close>

definition genNeuronUpdateKernel ::
  "nat \<Rightarrow> NeuronGroupInternal GroupMerged list \<Rightarrow> exn + (RangeTest list \<times> nat)" where
  "genNeuronUpdateKernel blockSize mergedNeuronUpdateGroups =
     genParallelGroup (\<lambda>g. True) (\<lambda>ng. Inr (padSize (numNeurons ng) blockSize))
       mergedNeuronUpdateGroups [] 0"

text \<open>
  \<open>genPresynapticUpdateKernel\<close> first looks up the strategy of every archetype, for the
  shared memory it needs, and then that of every member, for its number of threads; either
  lookup may raise. The strategies' virtual \<open>getNumThreads\<close> and
  \<open>getSharedMemoryPerThread\<close> are parameters.
\<close>

fun maxSharedMemPerThreadLoop ::
  "'s list \<Rightarrow> ('s \<Rightarrow> SynapseGroupInternal \<Rightarrow> 'p \<Rightarrow> bool) \<Rightarrow> (SynapseGroupInternal \<Rightarrow> string)
     \<Rightarrow> ('s \<Rightarrow> SynapseGroupInternal GroupMerged \<Rightarrow> nat) \<Rightarrow> 'p \<Rightarrow> nat
     \<Rightarrow> SynapseGroupInternal GroupMerged list \<Rightarrow> exn + nat" where
  "maxSharedMemPerThreadLoop strategies isCompatible getName getSharedMemoryPerThread preferences
       maxSharedMemPerThread [] = Inr maxSharedMemPerThread"
| "maxSharedMemPerThreadLoop strategies isCompatible getName getSharedMemoryPerThread preferences
       maxSharedMemPerThread (s # ss) =
     (case getPresynapticUpdateStrategy strategies isCompatible getName (archetype s) preferences of
        Inl e \<Rightarrow> Inl e
      | Inr strategy \<Rightarrow>
          maxSharedMemPerThreadLoop strategies isCompatible getName getSharedMemoryPerThread
            preferences (max maxSharedMemPerThread (getSharedMemoryPerThread strategy s)) ss)"

definition genPresynapticUpdateKernel ::
  "'s list \<Rightarrow> ('s \<Rightarrow> SynapseGroupInternal \<Rightarrow> 'p \<Rightarrow> bool) \<Rightarrow> (SynapseGroupInternal \<Rightarrow> string)
     \<Rightarrow> ('s \<Rightarrow> SynapseGroupInternal \<Rightarrow> nat) \<Rightarrow> ('s \<Rightarrow> SynapseGroupInternal GroupMerged \<Rightarrow> nat)
     \<Rightarrow> 'p \<Rightarrow> nat \<Rightarrow> SynapseGroupInternal GroupMerged list \<Rightarrow> exn + (RangeTest list \<times> nat)" where
  "genPresynapticUpdateKernel strategies isCompatible getName getNumThreads getSharedMemoryPerThread
       preferences blockSize mergedPresynapticUpdateGroups =
     (case maxSharedMemPerThreadLoop strategies isCompatible getName getSharedMemoryPerThread
             preferences 0 mergedPresynapticUpdateGroups of
        Inl e \<Rightarrow> Inl e
      | Inr maxSharedMemPerThread \<Rightarrow>
          genParallelGroup (\<lambda>g. True)
            (\<lambda>sg. case getNumPresynapticUpdateThreads strategies isCompatible getName getNumThreads
                         sg preferences of
                     Inl e \<Rightarrow> Inl e
                   | Inr n \<Rightarrow> Inr (padSize n blockSize))
            mergedPresynapticUpdateGroups [] 0)"

definition genPostsynapticUpdateKernel ::
  "nat \<Rightarrow> SynapseGroupInternal GroupMerged list \<Rightarrow> exn + (RangeTest list \<times> nat)" where
  "genPostsynapticUpdateKernel blockSize mergedPostsynapticUpdateGroups =
     genParallelGroup (\<lambda>g. True)
       (\<lambda>sg. Inr (padSize (getNumPostsynapticUpdateThreads sg) blockSize))
       mergedPostsynapticUpdateGroups [] 0"

definition genSynapseDynamicsKernel ::
  "nat \<Rightarrow> SynapseGroupInternal GroupMerged list \<Rightarrow> exn + (RangeTest list \<times> nat)" where
  "genSynapseDynamicsKernel blockSize mergedSynapseDynamicsGroups =
     genParallelGroup (\<lambda>g. True)
       (\<lambda>sg. Inr (padSize (getNumSynapseDynamicsThreads sg) blockSize))
       mergedSynapseDynamicsGroups [] 0"

definition genCustomUpdateKernel ::
  "nat \<Rightarrow> string \<Rightarrow> CustomUpdateInternal GroupMerged list \<Rightarrow> nat
     \<Rightarrow> exn + (RangeTest list \<times> nat)" where
  "genCustomUpdateKernel blockSize updateGroup mergedCustomUpdateGroups idStart =
     genParallelGroup (\<lambda>cg. updateGroupName (archetype cg) = updateGroup)
       (\<lambda>cu. Inr (padSize (getSize cu) blockSize))
       mergedCustomUpdateGroups [] idStart"

text \<open>\<open>genCustomUpdateWUKernel\<close> is given the name of the update group and passes no filter.\<close>

definition genCustomUpdateWUKernel ::
  "nat \<Rightarrow> string \<Rightarrow> CustomUpdateWUInternal GroupMerged list \<Rightarrow> nat
     \<Rightarrow> exn + (RangeTest list \<times> nat)" where
  "genCustomUpdateWUKernel blockSize updateGroup mergedCustomUpdateWUGroups idStart =
     genParallelGroup (\<lambda>g. True)
       (\<lambda>cg. Inr (padSize (getNumCustomUpdateWUThreads cg) blockSize))
       mergedCustomUpdateWUGroups [] idStart"

text \<open>
  \<open>genInitializeKernel\<close> dispatches over the merged neuron initialisation groups, the
  merged dense initialisation groups and the merged connectivity initialisation groups,
  one after the other on the same stream and \<open>idStart\<close>.
\<close>

definition genInitializeKernel ::
  "nat \<Rightarrow> NeuronGroupInternal GroupMerged list \<Rightarrow> SynapseGroupInternal GroupMerged list
     \<Rightarrow> SynapseGroupInternal GroupMerged list \<Rightarrow> exn + (RangeTest list \<times> nat)" where
  "genInitializeKernel blockSize mergedNeuronInitGroups mergedSynapseDenseInitGroups
       mergedSynapseConnectivityInitGroups =
     (case genParallelGroup (\<lambda>g. True) (\<lambda>ng. Inr (padSize (numNeurons ng) blockSize))
             mergedNeuronInitGroups [] 0 of
        Inl e \<Rightarrow> Inl e
      | Inr (os1, idStart1) \<Rightarrow>
          (case genParallelGroup (\<lambda>g. True) (\<lambda>sg. Inr (padSize (trgNumNeurons sg) blockSize))
                  mergedSynapseDenseInitGroups os1 idStart1 of
             Inl e \<Rightarrow> Inl e
           | Inr (os2, idStart2) \<Rightarrow>
               genParallelGroup (\<lambda>g. True) (\<lambda>sg. Inr (padSize (srcNumNeurons sg) blockSize))
                 mergedSynapseConnectivityInitGroups os2 idStart2))"

definition genInitializeSparseKernel ::
  "nat \<Rightarrow> SynapseGroupInternal GroupMerged list \<Rightarrow> nat \<Rightarrow> exn + (RangeTest list \<times> nat)" where
  "genInitializeSparseKernel blockSize mergedSynapseSparseInitGroups idStart =
     genParallelGroup (\<lambda>g. True) (\<lambda>sg. Inr (padSize (maxConnections sg) blockSize))
       mergedSynapseSparseInitGroups [] idStart"

section \<open>Properties of the thread layout\<close>

text \<open>The range tests for consecutive groups of the given thread counts, from \<open>s\<close> on.\<close>

fun ranges :: "nat list \<Rightarrow> nat \<Rightarrow> RangeTest list" where
  "ranges [] s = []"
| "ranges (c # cs) s = genRangeTest s c # ranges cs (s + c)"

definition neuronResetThreads :: "nat \<Rightarrow> NeuronGroupInternal GroupMerged \<Rightarrow> nat" where
  "neuronResetThreads blockSize n =
     (if prevSpikeTimeRequired (archetype n) \<or> prevSpikeEventTimeRequired (archetype n)
      then sum_list (map (\<lambda>g. padSize (numNeurons g) blockSize) (getGroups n))
      else length (getGroups n))"

lemma foldl_add_sum_list:
  "foldl (\<lambda>acc g. acc + f g) (a::nat) gs = a + sum_list (map f gs)"
  by (induction gs arbitrary: a) simp_all

lemma genPreNeuronResetKernelLoop_ranges:
  "genPreNeuronResetKernelLoop blockSize ns os s =
     (os @ ranges (map (neuronResetThreads blockSize) ns) s,
      s + sum_list (map (neuronResetThreads blockSize) ns))"
  by (induction ns arbitrary: os s)
     (simp_all add: neuronResetThreads_def foldl_add_sum_list Let_def add.assoc)

lemma genPreSynapseResetKernelLoop_ranges:
  "genPreSynapseResetKernelLoop ns os s =
     (os @ ranges (map (\<lambda>n. length (getGroups n)) ns) s,
      s + sum_list (map (\<lambda>n. length (getGroups n)) ns))"
  by (induction ns arbitrary: os s) (simp_all add: add.assoc)

lemma length_ranges: "length (ranges cs s) = length cs"
  by (induction cs arbitrary: s) simp_all

lemma numThreads_genRangeTest: "numThreads (genRangeTest s c) = c"
  by (simp add: genRangeTest_def)

lemma holds_genRangeTest: "holds (genRangeTest s c) tid \<longleftrightarrow> s \<le> tid \<and> tid < s + c"
  by (simp add: genRangeTest_def)

lemma numThreads_ranges: "i < length cs \<Longrightarrow> numThreads (ranges cs s ! i) = cs ! i"
proof (induction cs arbitrary: s i)
  case Nil
  then show ?case by simp
next
  case (Cons c cs)
  then show ?case by (cases i) (simp_all add: numThreads_genRangeTest)
qed

lemma sum_numThreads_ranges: "sum_list (map numThreads (ranges cs s)) = sum_list cs"
  by (induction cs arbitrary: s) (simp_all add: numThreads_genRangeTest)

lemma holds_ranges_bounds:
  "i < length cs \<Longrightarrow> holds (ranges cs s ! i) tid \<Longrightarrow> s \<le> tid \<and> tid < s + sum_list cs"
proof (induction cs arbitrary: s i)
  case Nil
  then show ?case by simp
next
  case (Cons c cs)
  show ?case
  proof (cases i)
    case 0
    with Cons.prems show ?thesis by (simp add: holds_genRangeTest)
  next
    case (Suc k)
    with Cons.prems have "k < length cs" and "holds (ranges cs (s + c) ! k) tid" by simp_all
    from Cons.IH [OF this] show ?thesis by simp
  qed
qed

lemma holds_ranges_unique:
  "i < length cs \<Longrightarrow> j < length cs \<Longrightarrow> holds (ranges cs s ! i) tid
     \<Longrightarrow> holds (ranges cs s ! j) tid \<Longrightarrow> i = j"
proof (induction cs arbitrary: s i j)
  case Nil
  then show ?case by simp
next
  case (Cons c cs)
  show ?case
  proof (cases i)
    case i0: 0
    show ?thesis
    proof (cases j)
      case 0
      with i0 show ?thesis by simp
    next
      case (Suc k)
      with Cons.prems have "k < length cs" and "holds (ranges cs (s + c) ! k) tid" by simp_all
      from holds_ranges_bounds [OF this] have "s + c \<le> tid" by simp
      moreover from Cons.prems i0 have "tid < s + c" by (simp add: holds_genRangeTest)
      ultimately show ?thesis by simp
    qed
  next
    case iS: (Suc k)
    with Cons.prems have k: "k < length cs" and hk: "holds (ranges cs (s + c) ! k) tid" by simp_all
    show ?thesis
    proof (cases j)
      case 0
      from holds_ranges_bounds [OF k hk] have "s + c \<le> tid" by simp
      moreover from Cons.prems 0 have "tid < s + c" by (simp add: holds_genRangeTest)
      ultimately show ?thesis by simp
    next
      case (Suc l)
      with Cons.prems have "l < length cs" and "holds (ranges cs (s + c) ! l) tid" by simp_all
      from Cons.IH [OF k this(1) hk this(2)] iS Suc show ?thesis by simp
    qed
  qed
qed

lemma holds_ranges_exists:
  "s \<le> tid \<Longrightarrow> tid < s + sum_list cs \<Longrightarrow> \<exists>i. i < length cs \<and> holds (ranges cs s ! i) tid"
proof (induction cs arbitrary: s)
  case Nil
  then show ?case by simp
next
  case (Cons c cs)
  show ?case
  proof (cases "tid < s + c")
    case True
    with Cons.prems have "0 < length (c # cs) \<and> holds (ranges (c # cs) s ! 0) tid"
      by (simp add: holds_genRangeTest)
    then show ?thesis by blast
  next
    case False
    with Cons.prems have "s + c \<le> tid" and "tid < (s + c) + sum_list cs" by simp_all
    from Cons.IH [OF this] obtain k where "k < length cs" and "holds (ranges cs (s + c) ! k) tid"
      by blast
    then have "Suc k < length (c # cs) \<and> holds (ranges (c # cs) s ! Suc k) tid" by simp
    then show ?thesis by blast
  qed
qed

lemma holds_ranges_ex1:
  assumes "tid < sum_list cs"
  shows "\<exists>!i. i < length cs \<and> holds (ranges cs 0 ! i) tid"
proof -
  from assms holds_ranges_exists [of 0 tid cs]
  obtain i where "i < length cs \<and> holds (ranges cs 0 ! i) tid" by auto
  then show ?thesis by (auto intro: holds_ranges_unique)
qed

lemma dvd_sum_list_padSize:
  "blockSize dvd sum_list (map (\<lambda>g. padSize (numNeurons g) blockSize) gs)"
  by (induction gs) (simp_all add: padSize_def)

text \<open>
  The thread counts a dispatch is expected to give its merged groups: for each merged
  group the sum over its members of the member's size padded to the block size.
\<close>

definition paddedSizes :: "('g \<Rightarrow> nat) \<Rightarrow> nat \<Rightarrow> 'g GroupMerged list \<Rightarrow> nat list" where
  "paddedSizes getSizeFunc blockSize groups =
     map (\<lambda>n. sum_list (map (\<lambda>g. padSize (getSizeFunc g) blockSize) (getGroups n))) groups"

text \<open>
  \<open>threadLayout blockSize s counts result\<close>: the emitter has returned; it has emitted one
  range test per count, of that many threads, each a multiple of the block size; the
  final \<open>idStart\<close> is \<open>s\<close> plus the sum of the thread counts; and every thread id from
  \<open>s\<close> up to the final \<open>idStart\<close> passes exactly one of the emitted range tests.
\<close>

definition threadLayout :: "nat \<Rightarrow> nat \<Rightarrow> nat list \<Rightarrow> exn + (RangeTest list \<times> nat) \<Rightarrow> bool" where
  "threadLayout blockSize s counts result =
     (case result of
        Inl e \<Rightarrow> False
      | Inr (os, idStart) \<Rightarrow>
          map numThreads os = counts
          \<and> list_all (\<lambda>t. blockSize dvd numThreads t) os
          \<and> idStart = s + sum_list (map numThreads os)
          \<and> (\<forall>tid \<in> {s..<idStart}. length (filter (\<lambda>t. holds t tid) os) = 1))"

text \<open>The range tests of the dispatch for consecutive groups of the given thread counts.\<close>

fun tests :: "nat list \<Rightarrow> nat \<Rightarrow> RangeTest list" where
  "tests [] s = []"
| "tests (c # cs) s = IdBetween s (s + c) # tests cs (s + c)"

lemma tests_append: "tests (cs @ ds) s = tests cs s @ tests ds (s + sum_list cs)"
  by (induction cs arbitrary: s) (simp_all add: add.assoc)

lemma map_numThreads_tests: "map numThreads (tests cs s) = cs"
  by (induction cs arbitrary: s) simp_all

lemma filter_holds_tests_below: "tid < s \<Longrightarrow> filter (\<lambda>t. holds t tid) (tests cs s) = []"
  by (induction cs arbitrary: s) simp_all

lemma filter_holds_tests:
  "s \<le> tid \<Longrightarrow> tid < s + sum_list cs \<Longrightarrow> length (filter (\<lambda>t. holds t tid) (tests cs s)) = 1"
proof (induction cs arbitrary: s)
  case Nil
  then show ?case by simp
next
  case (Cons c cs)
  show ?case
  proof (cases "tid < s + c")
    case True
    with Cons.prems filter_holds_tests_below [of tid "s + c" cs] show ?thesis by simp
  next
    case False
    with Cons.prems have "s + c \<le> tid" and "tid < (s + c) + sum_list cs" by simp_all
    from Cons.IH [OF this] False show ?thesis by simp
  qed
qed

lemma dvd_numThreads_tests:
  "\<forall>c \<in> set cs. blockSize dvd c \<Longrightarrow> \<forall>t \<in> set (tests cs s). blockSize dvd numThreads t"
  by (induction cs arbitrary: s) simp_all

lemma threadLayout_tests:
  assumes "\<forall>c \<in> set cs. blockSize dvd c"
  shows "threadLayout blockSize s cs (Inr (tests cs s, s + sum_list cs))"
  using dvd_numThreads_tests [OF assms, of s]
  by (simp add: threadLayout_def map_numThreads_tests filter_holds_tests list_all_iff)

lemma dvd_paddedSizes: "\<forall>c \<in> set (paddedSizes h blockSize groups). blockSize dvd c"
proof -
  have "blockSize dvd sum_list (map (\<lambda>g. padSize (h g) blockSize) gs)" for gs
    by (induction gs) (simp_all add: padSize_def)
  then show ?thesis by (auto simp: paddedSizes_def)
qed

lemma sumPaddedSizes_Inr:
  "\<forall>g \<in> set gs. f g = Inr (h g) \<Longrightarrow> sumPaddedSizes f acc gs = Inr (acc + sum_list (map h gs))"
  by (induction gs arbitrary: acc) simp_all

lemma genParallelGroup_tests:
  assumes "\<forall>n \<in> set groups. flt n \<longrightarrow> (\<forall>g \<in> set (getGroups n). f g = Inr (h g))"
  shows "genParallelGroup flt f groups os s =
     Inr (os @ tests (map (\<lambda>n. sum_list (map h (getGroups n))) (filter flt groups)) s,
          s + sum_list (map (\<lambda>n. sum_list (map h (getGroups n))) (filter flt groups)))"
  using assms
proof (induction groups arbitrary: os s)
  case Nil
  then show ?case by simp
next
  case (Cons n groups)
  from Cons.prems have r: "\<forall>n \<in> set groups. flt n \<longrightarrow> (\<forall>g \<in> set (getGroups n). f g = Inr (h g))"
    by simp
  show ?case
  proof (cases "flt n")
    case True
    with Cons.prems have "\<forall>g \<in> set (getGroups n). f g = Inr (h g)" by simp
    from sumPaddedSizes_Inr [OF this, of 0] True Cons.IH [OF r] show ?thesis
      by (simp add: add.assoc)
  next
    case False
    with Cons.IH [OF r] show ?thesis by simp
  qed
qed

lemma genParallelGroup_padded:
  "genParallelGroup flt (\<lambda>g. Inr (padSize (h g) blockSize)) groups os s =
     Inr (os @ tests (paddedSizes h blockSize (filter flt groups)) s,
          s + sum_list (paddedSizes h blockSize (filter flt groups)))"
  using genParallelGroup_tests [of groups flt "\<lambda>g. Inr (padSize (h g) blockSize)"
      "\<lambda>g. padSize (h g) blockSize" os s]
  by (simp add: paddedSizes_def)

lemma threadLayout_padded:
  "threadLayout blockSize s (paddedSizes h blockSize (filter flt groups))
     (genParallelGroup flt (\<lambda>g. Inr (padSize (h g) blockSize)) groups [] s)"
  using threadLayout_tests [OF dvd_paddedSizes] by (simp add: genParallelGroup_padded)

lemma maxSharedMemPerThreadLoop_Inr:
  assumes "\<forall>n \<in> set groups. getPresynapticUpdateStrategy strategies isCompatible getName
              (archetype n) preferences = Inr (strategyOf (archetype n))"
  shows "\<exists>m. maxSharedMemPerThreadLoop strategies isCompatible getName getSharedMemoryPerThread
            preferences acc groups = Inr m"
  using assms by (induction groups arbitrary: acc) simp_all

lemma sumPaddedSizes_Inl:
  assumes "g \<in> set gs" and "f g = Inl e"
  shows "\<exists>e'. sumPaddedSizes f acc gs = Inl e'"
  using assms
proof (induction gs arbitrary: acc)
  case Nil
  then show ?case by simp
next
  case (Cons a gs)
  then show ?case by (cases "f a") auto
qed

lemma genParallelGroup_Inl:
  assumes "n \<in> set groups" and "flt n" and "g \<in> set (getGroups n)" and "f g = Inl e"
  shows "\<exists>e'. genParallelGroup flt f groups os s = Inl e'"
  using assms
proof (induction groups arbitrary: os s)
  case Nil
  then show ?case by simp
next
  case (Cons a groups)
  show ?case
  proof (cases "flt a")
    case False
    with Cons show ?thesis by auto
  next
    case True
    show ?thesis
    proof (cases "sumPaddedSizes f 0 (getGroups a)")
      case (Inl e')
      with True show ?thesis by simp
    next
      case (Inr p)
      have "a \<noteq> n"
      proof
        assume "a = n"
        with sumPaddedSizes_Inl [where f = f and acc = 0, OF Cons.prems(3,4)] Inr show False
          by simp
      qed
      with Cons.prems have "n \<in> set groups" by simp
      from Cons.IH [OF this Cons.prems(2-4)] True Inr show ?thesis by simp
    qed
  qed
qed

text \<open>
  C1, as stated, fails: a merged dendritic delay update group with one member
  contributes one thread to the pre-synapse reset kernel, and a merged spike queue update
  group of two members that needs no previous spike times contributes two threads to the
  pre-neuron reset kernel, whatever the block size; neither is a multiple of a block size
  of 32.
\<close>

theorem reset_kernel_unpadded_counterexample:
  "genPreSynapseResetKernel
     [\<lparr>index = 0,
       archetype = \<lparr>psModelTargetName = ''Syn'', dendriticDelayRequired = True,
                    maxDendriticDelayTimesteps = 4, matrixConnectivitySparse = False,
                    maxConnections = 0, maxSourceConnections = 0, srcNumNeurons = 0,
                    trgNumNeurons = 0\<rparr>,
       otherGroups = []\<rparr>] = ([IdBelow 1], 1)
   \<and> \<not> 32 dvd numThreads (IdBelow 1)
   \<and> genPreNeuronResetKernel 32
     [\<lparr>index = 0,
       archetype = \<lparr>numNeurons = 100, delayRequired = True, numDelaySlots = 2,
                    prevSpikeTimeRequired = False, prevSpikeEventTimeRequired = False,
                    mergedInSyn = []\<rparr>,
       otherGroups = [\<lparr>numNeurons = 250, delayRequired = True, numDelaySlots = 2,
                    prevSpikeTimeRequired = False, prevSpikeEventTimeRequired = False,
                    mergedInSyn = []\<rparr>]\<rparr>] = ([IdBelow 2], 2)
   \<and> \<not> 32 dvd numThreads (IdBelow 2)"
  by (simp add: genPreSynapseResetKernel_def genPreNeuronResetKernel_def getGroups_def
        genRangeTest_def)

text \<open>
  C1, amended. Every kernel emitted through the parallel-group dispatch has the layout
  the claim states: the neuron update, presynaptic update (when every member has a
  compatible strategy; otherwise the emitter raises), postsynaptic update, synapse
  dynamics, custom update, custom weight update, initialize and initializeSparse
  emitters return, each merged group that passes the filter gets one range test whose
  thread count is the sum over its members of the member's size padded to the kernel's
  block size, a multiple of the block size, the final \<open>idStart\<close> is the \<open>idStart\<close> the
  emitter started from (0 where it resets it) plus the sum of the thread counts, and
  every thread id between the two passes exactly one emitted range test. In the two
  reset kernels the sum and the exactly-one-test parts hold as well, but only a merged
  spike queue update group whose archetype needs previous spike or spike-like-event
  times is padded: it contributes the sum of \<open>padSize(numNeurons, blockSize)\<close> over its
  members; every other merged group of these two kernels contributes one thread per
  member, unpadded.
\<close>

theorem kernels_thread_layout:
  "(case genPreNeuronResetKernel blockSize ns of (os, idStart) \<Rightarrow>
      length os = length ns
      \<and> (\<forall>i < length ns.
            (prevSpikeTimeRequired (archetype (ns ! i))
               \<or> prevSpikeEventTimeRequired (archetype (ns ! i))
             \<longrightarrow> numThreads (os ! i)
                   = sum_list (map (\<lambda>g. padSize (numNeurons g) blockSize) (getGroups (ns ! i)))
                 \<and> blockSize dvd numThreads (os ! i))
          \<and> (\<not> (prevSpikeTimeRequired (archetype (ns ! i))
                  \<or> prevSpikeEventTimeRequired (archetype (ns ! i)))
             \<longrightarrow> numThreads (os ! i) = length (getGroups (ns ! i))))
      \<and> sum_list (map numThreads os) = idStart
      \<and> (\<forall>tid < idStart. \<exists>!i. i < length os \<and> holds (os ! i) tid))
   \<and> (case genPreSynapseResetKernel ms of (os, idStart) \<Rightarrow>
      length os = length ms
      \<and> (\<forall>i < length ms. numThreads (os ! i) = length (getGroups (ms ! i)))
      \<and> sum_list (map numThreads os) = idStart
      \<and> (\<forall>tid < idStart. \<exists>!i. i < length os \<and> holds (os ! i) tid))
   \<and> threadLayout blockSize idStart (paddedSizes h blockSize (filter flt groups))
        (genParallelGroup flt (\<lambda>g. Inr (padSize (h g) blockSize)) groups [] idStart)
   \<and> threadLayout blockSize 0 (paddedSizes numNeurons blockSize ngs)
        (genNeuronUpdateKernel blockSize ngs)
   \<and> ((\<forall>n \<in> set sgs. \<forall>g \<in> set (getGroups n).
          getPresynapticUpdateStrategy strategies isCompatible getName g preferences
            = Inr (strategyOf g)) \<longrightarrow>
        threadLayout blockSize 0 (paddedSizes (\<lambda>g. getNumThreads (strategyOf g) g) blockSize sgs)
          (genPresynapticUpdateKernel strategies isCompatible getName getNumThreads
             getSharedMemoryPerThread preferences blockSize sgs))
   \<and> ((\<exists>n \<in> set sgs. \<exists>g \<in> set (getGroups n).
          \<exists>e. getPresynapticUpdateStrategy strategies isCompatible getName g preferences = Inl e) \<longrightarrow>
        (\<exists>e. genPresynapticUpdateKernel strategies isCompatible getName getNumThreads
                getSharedMemoryPerThread preferences blockSize sgs = Inl e))
   \<and> threadLayout blockSize 0 (paddedSizes getNumPostsynapticUpdateThreads blockSize sgs)
        (genPostsynapticUpdateKernel blockSize sgs)
   \<and> threadLayout blockSize 0 (paddedSizes getNumSynapseDynamicsThreads blockSize sgs)
        (genSynapseDynamicsKernel blockSize sgs)
   \<and> threadLayout blockSize idStart
        (paddedSizes getSize blockSize
           (filter (\<lambda>cg. updateGroupName (archetype cg) = updateGroup) cus))
        (genCustomUpdateKernel blockSize updateGroup cus idStart)
   \<and> threadLayout blockSize idStart (paddedSizes getNumCustomUpdateWUThreads blockSize cws)
        (genCustomUpdateWUKernel blockSize updateGroup cws idStart)
   \<and> threadLayout blockSize 0
        (paddedSizes numNeurons blockSize ngs @ paddedSizes trgNumNeurons blockSize dense
           @ paddedSizes srcNumNeurons blockSize conn)
        (genInitializeKernel blockSize ngs dense conn)
   \<and> threadLayout blockSize idStart (paddedSizes maxConnections blockSize sgs)
        (genInitializeSparseKernel blockSize sgs idStart)"
proof -
  have neuronReset: "(case genPreNeuronResetKernel blockSize ns of (os, idStart) \<Rightarrow>
      length os = length ns
      \<and> (\<forall>i < length ns.
            (prevSpikeTimeRequired (archetype (ns ! i))
               \<or> prevSpikeEventTimeRequired (archetype (ns ! i))
             \<longrightarrow> numThreads (os ! i)
                   = sum_list (map (\<lambda>g. padSize (numNeurons g) blockSize) (getGroups (ns ! i)))
                 \<and> blockSize dvd numThreads (os ! i))
          \<and> (\<not> (prevSpikeTimeRequired (archetype (ns ! i))
                  \<or> prevSpikeEventTimeRequired (archetype (ns ! i)))
             \<longrightarrow> numThreads (os ! i) = length (getGroups (ns ! i))))
      \<and> sum_list (map numThreads os) = idStart
      \<and> (\<forall>tid < idStart. \<exists>!i. i < length os \<and> holds (os ! i) tid))"
  proof -
  let ?cs = "map (neuronResetThreads blockSize) ns"
  have r: "genPreNeuronResetKernel blockSize ns = (ranges ?cs 0, sum_list ?cs)"
    by (simp add: genPreNeuronResetKernel_def genPreNeuronResetKernelLoop_ranges)
  have t: "\<forall>i < length ns.
            (prevSpikeTimeRequired (archetype (ns ! i))
               \<or> prevSpikeEventTimeRequired (archetype (ns ! i))
             \<longrightarrow> numThreads (ranges ?cs 0 ! i)
                   = sum_list (map (\<lambda>g. padSize (numNeurons g) blockSize) (getGroups (ns ! i)))
                 \<and> blockSize dvd numThreads (ranges ?cs 0 ! i))
          \<and> (\<not> (prevSpikeTimeRequired (archetype (ns ! i))
                  \<or> prevSpikeEventTimeRequired (archetype (ns ! i)))
             \<longrightarrow> numThreads (ranges ?cs 0 ! i) = length (getGroups (ns ! i)))"
  proof (intro allI impI)
    fix i assume i: "i < length ns"
    then have "numThreads (ranges ?cs 0 ! i) = neuronResetThreads blockSize (ns ! i)"
      by (simp add: numThreads_ranges)
    then show "(prevSpikeTimeRequired (archetype (ns ! i))
               \<or> prevSpikeEventTimeRequired (archetype (ns ! i))
             \<longrightarrow> numThreads (ranges ?cs 0 ! i)
                   = sum_list (map (\<lambda>g. padSize (numNeurons g) blockSize) (getGroups (ns ! i)))
                 \<and> blockSize dvd numThreads (ranges ?cs 0 ! i))
          \<and> (\<not> (prevSpikeTimeRequired (archetype (ns ! i))
                  \<or> prevSpikeEventTimeRequired (archetype (ns ! i)))
             \<longrightarrow> numThreads (ranges ?cs 0 ! i) = length (getGroups (ns ! i)))"
      using dvd_sum_list_padSize [of blockSize "getGroups (ns ! i)"]
      by (simp add: neuronResetThreads_def)
  qed
  have u: "\<forall>tid < sum_list ?cs. \<exists>!i. i < length (ranges ?cs 0) \<and> holds (ranges ?cs 0 ! i) tid"
    using holds_ranges_ex1 [of _ ?cs] by (simp add: length_ranges)
  from t u show ?thesis

    unfolding r prod.case by (simp only: length_ranges length_map sum_numThreads_ranges)
  qed
  have synapseReset: "(case genPreSynapseResetKernel ms of (os, idStart) \<Rightarrow>
      length os = length ms
      \<and> (\<forall>i < length ms. numThreads (os ! i) = length (getGroups (ms ! i)))
      \<and> sum_list (map numThreads os) = idStart
      \<and> (\<forall>tid < idStart. \<exists>!i. i < length os \<and> holds (os ! i) tid))"
  proof -
  let ?cs = "map (\<lambda>n. length (getGroups n)) ms"
  have r: "genPreSynapseResetKernel ms = (ranges ?cs 0, sum_list ?cs)"
    by (simp add: genPreSynapseResetKernel_def genPreSynapseResetKernelLoop_ranges)
  have t: "\<forall>i < length ms. numThreads (ranges ?cs 0 ! i) = length (getGroups (ms ! i))"
    by (simp add: numThreads_ranges)
  have u: "\<forall>tid < sum_list ?cs. \<exists>!i. i < length (ranges ?cs 0) \<and> holds (ranges ?cs 0 ! i) tid"
    using holds_ranges_ex1 [of _ ?cs] by (simp add: length_ranges)
  from t u show ?thesis

    unfolding r prod.case by (simp only: length_ranges length_map sum_numThreads_ranges)
  qed
  have loop: "\<And>acc. \<forall>n \<in> set sgs. \<forall>g \<in> set (getGroups n).
          getPresynapticUpdateStrategy strategies isCompatible getName g preferences
            = Inr (strategyOf g) \<Longrightarrow>
      \<exists>m. maxSharedMemPerThreadLoop strategies isCompatible getName getSharedMemoryPerThread
            preferences acc sgs = Inr m"
    by (rule maxSharedMemPerThreadLoop_Inr [where strategyOf = strategyOf])
       (simp add: getGroups_def)
  have pre: "(\<forall>n \<in> set sgs. \<forall>g \<in> set (getGroups n).
          getPresynapticUpdateStrategy strategies isCompatible getName g preferences
            = Inr (strategyOf g)) \<longrightarrow>
        threadLayout blockSize 0 (paddedSizes (\<lambda>g. getNumThreads (strategyOf g) g) blockSize sgs)
          (genPresynapticUpdateKernel strategies isCompatible getName getNumThreads
             getSharedMemoryPerThread preferences blockSize sgs)"
  proof
    assume a: "\<forall>n \<in> set sgs. \<forall>g \<in> set (getGroups n).
          getPresynapticUpdateStrategy strategies isCompatible getName g preferences
            = Inr (strategyOf g)"
    from loop [OF a, of 0] obtain m where m: "maxSharedMemPerThreadLoop strategies isCompatible
        getName getSharedMemoryPerThread preferences 0 sgs = Inr m" by blast
    let ?f = "\<lambda>sg. case getNumPresynapticUpdateThreads strategies isCompatible getName getNumThreads
                         sg preferences of
                     Inl e \<Rightarrow> Inl e
                   | Inr n \<Rightarrow> Inr (padSize n blockSize)"
    from a have "\<forall>n \<in> set sgs. True \<longrightarrow> (\<forall>g \<in> set (getGroups n).
        ?f g = Inr (padSize (getNumThreads (strategyOf g) g) blockSize))"
      by (simp add: getNumPresynapticUpdateThreads_def)
    from genParallelGroup_tests [OF this, of "[]" 0]
    have "genParallelGroup (\<lambda>g. True) ?f sgs [] 0 =
        Inr (tests (paddedSizes (\<lambda>g. getNumThreads (strategyOf g) g) blockSize sgs) 0,
             0 + sum_list (paddedSizes (\<lambda>g. getNumThreads (strategyOf g) g) blockSize sgs))"
      by (simp add: paddedSizes_def)
    with m threadLayout_tests [OF dvd_paddedSizes,
        where h1 = "\<lambda>g. getNumThreads (strategyOf g) g" and groups1 = sgs and s = 0
          and blockSize = blockSize]
    show "threadLayout blockSize 0 (paddedSizes (\<lambda>g. getNumThreads (strategyOf g) g) blockSize sgs)
          (genPresynapticUpdateKernel strategies isCompatible getName getNumThreads
             getSharedMemoryPerThread preferences blockSize sgs)"
      by (simp add: genPresynapticUpdateKernel_def)
  qed
  have preFail: "(\<exists>n \<in> set sgs. \<exists>g \<in> set (getGroups n).
          \<exists>e. getPresynapticUpdateStrategy strategies isCompatible getName g preferences = Inl e) \<longrightarrow>
        (\<exists>e. genPresynapticUpdateKernel strategies isCompatible getName getNumThreads
                getSharedMemoryPerThread preferences blockSize sgs = Inl e)"
  proof
    assume "\<exists>n \<in> set sgs. \<exists>g \<in> set (getGroups n).
          \<exists>e. getPresynapticUpdateStrategy strategies isCompatible getName g preferences = Inl e"
    then obtain n g e where n: "n \<in> set sgs" and g: "g \<in> set (getGroups n)"
      and e: "getPresynapticUpdateStrategy strategies isCompatible getName g preferences = Inl e"
      by blast
    let ?f = "\<lambda>sg. case getNumPresynapticUpdateThreads strategies isCompatible getName getNumThreads
                         sg preferences of
                     Inl e \<Rightarrow> Inl e
                   | Inr n \<Rightarrow> Inr (padSize n blockSize)"
    from e have "?f g = Inl e" by (simp add: getNumPresynapticUpdateThreads_def)
    from genParallelGroup_Inl [where flt = "\<lambda>g. True" and f = ?f and os = "[]" and s = 0
        and n = n and g = g and groups = sgs and e = e] n g this
    obtain e' where "genParallelGroup (\<lambda>g. True) ?f sgs [] 0 = Inl e'" by auto
    then show "\<exists>e. genPresynapticUpdateKernel strategies isCompatible getName getNumThreads
                getSharedMemoryPerThread preferences blockSize sgs = Inl e"
      by (cases "maxSharedMemPerThreadLoop strategies isCompatible getName
                   getSharedMemoryPerThread preferences 0 sgs")
         (simp_all add: genPresynapticUpdateKernel_def)
  qed
  have t: "threadLayout blockSize s (paddedSizes h blockSize gs)
     (genParallelGroup (\<lambda>g. True) (\<lambda>g. Inr (padSize (h g) blockSize)) gs [] s)"
    for h :: "'x \<Rightarrow> nat" and gs s
    using threadLayout_padded [of blockSize s h "\<lambda>g. True" gs] by simp
  have init: "threadLayout blockSize 0
        (paddedSizes numNeurons blockSize ngs @ paddedSizes trgNumNeurons blockSize dense
           @ paddedSizes srcNumNeurons blockSize conn)
        (genInitializeKernel blockSize ngs dense conn)"
  proof -
    let ?cs = "paddedSizes numNeurons blockSize ngs @ paddedSizes trgNumNeurons blockSize dense
           @ paddedSizes srcNumNeurons blockSize conn"
    have "genInitializeKernel blockSize ngs dense conn = Inr (tests ?cs 0, 0 + sum_list ?cs)"
      using genParallelGroup_padded [of "\<lambda>g. True" numNeurons blockSize ngs "[]" 0]
      by (simp add: genInitializeKernel_def genParallelGroup_padded tests_append add.assoc)
    moreover have "\<forall>c \<in> set ?cs. blockSize dvd c"
      using dvd_paddedSizes [of numNeurons blockSize ngs]
        dvd_paddedSizes [of trgNumNeurons blockSize dense]
        dvd_paddedSizes [of srcNumNeurons blockSize conn]
      by auto
    ultimately show ?thesis using threadLayout_tests [of ?cs blockSize 0] by simp
  qed
  show ?thesis
    using neuronReset synapseReset pre preFail init
      threadLayout_padded [of blockSize idStart h flt groups]
      t [of 0 numNeurons ngs] t [of 0 getNumPostsynapticUpdateThreads sgs]
      t [of 0 getNumSynapseDynamicsThreads sgs]
      threadLayout_padded [of blockSize idStart getSize
        "\<lambda>cg. updateGroupName (archetype cg) = updateGroup" cus]
      t [of idStart getNumCustomUpdateWUThreads cws] t [of idStart maxConnections sgs]
    unfolding genNeuronUpdateKernel_def genPostsynapticUpdateKernel_def
      genSynapseDynamicsKernel_def genCustomUpdateKernel_def genCustomUpdateWUKernel_def
      genInitializeSparseKernel_def
    by (intro conjI)
qed

text \<open>
  Two neuron groups of 100 and 250 neurons in one merged group that needs previous spike
  times, followed by a merged group of one member that does not, with a block size of 32:
  384 and 1 threads, 385 in all, and thread 384 is claimed by the second range test only.
  One merged dendritic delay update group of two members: two threads. The merged group
  of 100 and 250 neurons in the neuron update kernel: \<open>pad(100,32) + pad(250,32) = 384\<close>
  threads, and behind it in the initialize kernel a sparse synapse group with 100 source
  neurons, 128 more. That synapse group, with at most 40 source connections and 50
  connections in a row, in the postsynaptic update kernel: 64 threads; in the presynaptic
  update kernel with the strategy \<open>PostSpan\<close>, one thread per connection in a row: 64
  threads, and with no compatible strategy the emitter raises. Custom updates of 100 and
  10 variables in the update groups \<open>A\<close> and \<open>B\<close>: the kernel of \<open>A\<close> has 128 threads.
\<close>

theorem kernels_thread_layout_witness:
  "genPreNeuronResetKernel 32
     [\<lparr>index = 0,
       archetype = \<lparr>numNeurons = 100, delayRequired = True, numDelaySlots = 2,
                    prevSpikeTimeRequired = True, prevSpikeEventTimeRequired = False,
                    mergedInSyn = []\<rparr>,
       otherGroups = [\<lparr>numNeurons = 250, delayRequired = True, numDelaySlots = 2,
                    prevSpikeTimeRequired = True, prevSpikeEventTimeRequired = False,
                    mergedInSyn = []\<rparr>]\<rparr>,
      \<lparr>index = 1,
       archetype = \<lparr>numNeurons = 10, delayRequired = False, numDelaySlots = 1,
                    prevSpikeTimeRequired = False, prevSpikeEventTimeRequired = False,
                    mergedInSyn = []\<rparr>,
       otherGroups = []\<rparr>] = ([IdBelow 384, IdBetween 384 385], 385)
   \<and> (32::nat) dvd numThreads (IdBelow 384)
   \<and> numThreads (IdBetween 384 385) = 1
   \<and> (\<exists>!i. i < length [IdBelow 384, IdBetween 384 385]
            \<and> holds ([IdBelow 384, IdBetween 384 385] ! i) 384)
   \<and> genPreSynapseResetKernel
     [\<lparr>index = 0,
       archetype = \<lparr>psModelTargetName = ''SynA'', dendriticDelayRequired = True,
                    maxDendriticDelayTimesteps = 4, matrixConnectivitySparse = False,
                    maxConnections = 0, maxSourceConnections = 0, srcNumNeurons = 0,
                    trgNumNeurons = 0\<rparr>,
       otherGroups = [\<lparr>psModelTargetName = ''SynB'', dendriticDelayRequired = True,
                    maxDendriticDelayTimesteps = 4, matrixConnectivitySparse = False,
                    maxConnections = 0, maxSourceConnections = 0, srcNumNeurons = 0,
                    trgNumNeurons = 0\<rparr>]\<rparr>] = ([IdBelow 2], 2)
   \<and> (\<exists>!i. i < length [IdBelow 2] \<and> holds ([IdBelow 2] ! i) 1)
   \<and> genNeuronUpdateKernel 32
     [\<lparr>index = 0,
       archetype = \<lparr>numNeurons = 100, delayRequired = True, numDelaySlots = 2,
                    prevSpikeTimeRequired = True, prevSpikeEventTimeRequired = False,
                    mergedInSyn = []\<rparr>,
       otherGroups = [\<lparr>numNeurons = 250, delayRequired = True, numDelaySlots = 2,
                    prevSpikeTimeRequired = True, prevSpikeEventTimeRequired = False,
                    mergedInSyn = []\<rparr>]\<rparr>] = Inr ([IdBetween 0 384], 384)
   \<and> threadLayout 32 0 [384] (Inr ([IdBetween 0 384], 384))
   \<and> length (filter (\<lambda>t. holds t 383) [IdBetween 0 384]) = 1
   \<and> genInitializeKernel 32
     [\<lparr>index = 0,
       archetype = \<lparr>numNeurons = 100, delayRequired = True, numDelaySlots = 2,
                    prevSpikeTimeRequired = True, prevSpikeEventTimeRequired = False,
                    mergedInSyn = []\<rparr>,
       otherGroups = [\<lparr>numNeurons = 250, delayRequired = True, numDelaySlots = 2,
                    prevSpikeTimeRequired = True, prevSpikeEventTimeRequired = False,
                    mergedInSyn = []\<rparr>]\<rparr>] []
     [\<lparr>index = 0,
       archetype = \<lparr>psModelTargetName = ''Syn'', dendriticDelayRequired = True,
                    maxDendriticDelayTimesteps = 4, matrixConnectivitySparse = True,
                    maxConnections = 50, maxSourceConnections = 40, srcNumNeurons = 100,
                    trgNumNeurons = 250\<rparr>,
       otherGroups = []\<rparr>] = Inr ([IdBetween 0 384, IdBetween 384 512], 512)
   \<and> threadLayout 32 0 [384, 128] (Inr ([IdBetween 0 384, IdBetween 384 512], 512))
   \<and> length (filter (\<lambda>t. holds t 384) [IdBetween 0 384, IdBetween 384 512]) = 1
   \<and> genPostsynapticUpdateKernel 32
     [\<lparr>index = 0,
       archetype = \<lparr>psModelTargetName = ''Syn'', dendriticDelayRequired = True,
                    maxDendriticDelayTimesteps = 4, matrixConnectivitySparse = True,
                    maxConnections = 50, maxSourceConnections = 40, srcNumNeurons = 100,
                    trgNumNeurons = 250\<rparr>,
       otherGroups = []\<rparr>] = Inr ([IdBetween 0 64], 64)
   \<and> threadLayout 32 0 [64] (Inr ([IdBetween 0 64], 64))
   \<and> genPresynapticUpdateKernel s_PresynapticUpdateStrategies
       (\<lambda>s g p. s = PostSpan \<or> s = PreSpan) psModelTargetName
       (\<lambda>s g. if s = PostSpan then maxConnections g else srcNumNeurons g) (\<lambda>s g. 0) () 32
     [\<lparr>index = 0,
       archetype = \<lparr>psModelTargetName = ''Syn'', dendriticDelayRequired = True,
                    maxDendriticDelayTimesteps = 4, matrixConnectivitySparse = True,
                    maxConnections = 50, maxSourceConnections = 40, srcNumNeurons = 100,
                    trgNumNeurons = 250\<rparr>,
       otherGroups = []\<rparr>] = Inr ([IdBetween 0 64], 64)
   \<and> threadLayout 32 0 [64] (genPresynapticUpdateKernel s_PresynapticUpdateStrategies
       (\<lambda>s g p. s = PostSpan \<or> s = PreSpan) psModelTargetName
       (\<lambda>s g. if s = PostSpan then maxConnections g else srcNumNeurons g) (\<lambda>s g. 0) () 32
     [\<lparr>index = 0,
       archetype = \<lparr>psModelTargetName = ''Syn'', dendriticDelayRequired = True,
                    maxDendriticDelayTimesteps = 4, matrixConnectivitySparse = True,
                    maxConnections = 50, maxSourceConnections = 40, srcNumNeurons = 100,
                    trgNumNeurons = 250\<rparr>,
       otherGroups = []\<rparr>])
   \<and> (\<exists>e. genPresynapticUpdateKernel s_PresynapticUpdateStrategies
       (\<lambda>s g p. False) psModelTargetName
       (\<lambda>s g. if s = PostSpan then maxConnections g else srcNumNeurons g) (\<lambda>s g. 0) () 32
     [\<lparr>index = 0,
       archetype = \<lparr>psModelTargetName = ''Syn'', dendriticDelayRequired = True,
                    maxDendriticDelayTimesteps = 4, matrixConnectivitySparse = True,
                    maxConnections = 50, maxSourceConnections = 40, srcNumNeurons = 100,
                    trgNumNeurons = 250\<rparr>,
       otherGroups = []\<rparr>] = Inl e)
   \<and> genCustomUpdateKernel 32 ''A''
     [\<lparr>index = 0, archetype = \<lparr>getSize = 100, updateGroupName = ''A''\<rparr>, otherGroups = []\<rparr>,
      \<lparr>index = 1, archetype = \<lparr>getSize = 10, updateGroupName = ''B''\<rparr>, otherGroups = []\<rparr>] 0 = Inr ([IdBetween 0 128], 128)
   \<and> threadLayout 32 0 [128] (Inr ([IdBetween 0 128], 128))"
proof -
  let ?ns = "[\<lparr>index = 0,
       archetype = \<lparr>numNeurons = 100, delayRequired = True, numDelaySlots = 2,
                    prevSpikeTimeRequired = True, prevSpikeEventTimeRequired = False,
                    mergedInSyn = []\<rparr>,
       otherGroups = [\<lparr>numNeurons = 250, delayRequired = True, numDelaySlots = 2,
                    prevSpikeTimeRequired = True, prevSpikeEventTimeRequired = False,
                    mergedInSyn = []\<rparr>]\<rparr>,
      \<lparr>index = 1,
       archetype = \<lparr>numNeurons = 10, delayRequired = False, numDelaySlots = 1,
                    prevSpikeTimeRequired = False, prevSpikeEventTimeRequired = False,
                    mergedInSyn = []\<rparr>,
       otherGroups = []\<rparr>]"
  let ?ms = "[\<lparr>index = 0,
       archetype = \<lparr>psModelTargetName = ''SynA'', dendriticDelayRequired = True,
                    maxDendriticDelayTimesteps = 4, matrixConnectivitySparse = False,
                    maxConnections = 0, maxSourceConnections = 0, srcNumNeurons = 0,
                    trgNumNeurons = 0\<rparr>,
       otherGroups = [\<lparr>psModelTargetName = ''SynB'', dendriticDelayRequired = True,
                    maxDendriticDelayTimesteps = 4, matrixConnectivitySparse = False,
                    maxConnections = 0, maxSourceConnections = 0, srcNumNeurons = 0,
                    trgNumNeurons = 0\<rparr>]\<rparr>]"
  let ?ngs = "[\<lparr>index = 0,
       archetype = \<lparr>numNeurons = 100, delayRequired = True, numDelaySlots = 2,
                    prevSpikeTimeRequired = True, prevSpikeEventTimeRequired = False,
                    mergedInSyn = []\<rparr>,
       otherGroups = [\<lparr>numNeurons = 250, delayRequired = True, numDelaySlots = 2,
                    prevSpikeTimeRequired = True, prevSpikeEventTimeRequired = False,
                    mergedInSyn = []\<rparr>]\<rparr>]"
  let ?sgs = "[\<lparr>index = 0,
       archetype = \<lparr>psModelTargetName = ''Syn'', dendriticDelayRequired = True,
                    maxDendriticDelayTimesteps = 4, matrixConnectivitySparse = True,
                    maxConnections = 50, maxSourceConnections = 40, srcNumNeurons = 100,
                    trgNumNeurons = 250\<rparr>,
       otherGroups = []\<rparr>]"
  let ?cus = "[\<lparr>index = 0, archetype = \<lparr>getSize = 100, updateGroupName = ''A''\<rparr>, otherGroups = []\<rparr>,
      \<lparr>index = 1, archetype = \<lparr>getSize = 10, updateGroupName = ''B''\<rparr>, otherGroups = []\<rparr>]"
  let ?compat = "(\<lambda>s g p. s = PostSpan \<or> s = PreSpan) :: BuiltinStrategy \<Rightarrow> SynapseGroupInternal \<Rightarrow> unit \<Rightarrow> bool"
  let ?never = "(\<lambda>s g p. False) :: BuiltinStrategy \<Rightarrow> SynapseGroupInternal \<Rightarrow> unit \<Rightarrow> bool"
  let ?nthr = "(\<lambda>s g. if s = PostSpan then maxConnections g else srcNumNeurons g) :: BuiltinStrategy \<Rightarrow> SynapseGroupInternal \<Rightarrow> nat"
  let ?shm = "(\<lambda>s g. 0) :: BuiltinStrategy \<Rightarrow> SynapseGroupInternal GroupMerged \<Rightarrow> nat"
  have n: "genPreNeuronResetKernel 32 ?ns = ([IdBelow 384, IdBetween 384 385], 385)"
    by (simp add: genPreNeuronResetKernel_def getGroups_def genRangeTest_def padSize_def)
  have m: "genPreSynapseResetKernel ?ms = ([IdBelow 2], 2)"
    by (simp add: genPreSynapseResetKernel_def getGroups_def genRangeTest_def)
  have a: "(384::nat) < 385" and b: "(1::nat) < 2" and c: "(0::nat) < length ?ns" by simp_all
  have nu: "genNeuronUpdateKernel 32 ?ngs = Inr ([IdBetween 0 384], 384)"
    and nuc: "paddedSizes numNeurons 32 ?ngs = [384]"
    by (simp_all add: genNeuronUpdateKernel_def paddedSizes_def getGroups_def padSize_def)
  have ini: "genInitializeKernel 32 ?ngs [] ?sgs
      = Inr ([IdBetween 0 384, IdBetween 384 512], 512)"
    and inic: "paddedSizes numNeurons 32 ?ngs @ paddedSizes trgNumNeurons 32 []
        @ paddedSizes srcNumNeurons 32 ?sgs = [384, 128]"
    by (simp_all add: genInitializeKernel_def paddedSizes_def getGroups_def padSize_def)
  have po: "genPostsynapticUpdateKernel 32 ?sgs = Inr ([IdBetween 0 64], 64)"
    and poc: "paddedSizes getNumPostsynapticUpdateThreads 32 ?sgs = [64]"
    by (simp_all add: genPostsynapticUpdateKernel_def getNumPostsynapticUpdateThreads_def
          paddedSizes_def getGroups_def padSize_def)
  have st: "\<forall>n \<in> set ?sgs. \<forall>g \<in> set (getGroups n).
      getPresynapticUpdateStrategy s_PresynapticUpdateStrategies ?compat psModelTargetName g ()
        = Inr ((\<lambda>g. PostSpan) g)"
    by (simp add: getPresynapticUpdateStrategy_def s_PresynapticUpdateStrategies_def
          getGroups_def)
  have nst: "\<exists>n \<in> set ?sgs. \<exists>g \<in> set (getGroups n).
      \<exists>e. getPresynapticUpdateStrategy s_PresynapticUpdateStrategies ?never psModelTargetName g ()
             = Inl e"
    by (simp add: getPresynapticUpdateStrategy_def s_PresynapticUpdateStrategies_def
          getGroups_def)
  have pr: "genPresynapticUpdateKernel s_PresynapticUpdateStrategies ?compat psModelTargetName
      ?nthr ?shm () 32 ?sgs = Inr ([IdBetween 0 64], 64)"
    and prc: "paddedSizes (\<lambda>g. ?nthr ((\<lambda>g. PostSpan) g) g) 32 ?sgs = [64]"
    by (simp_all add: genPresynapticUpdateKernel_def getNumPresynapticUpdateThreads_def
          getPresynapticUpdateStrategy_def s_PresynapticUpdateStrategies_def
          paddedSizes_def getGroups_def padSize_def)
  have cu: "genCustomUpdateKernel 32 ''A'' ?cus 0 = Inr ([IdBetween 0 128], 128)"
    and cuc: "paddedSizes getSize 32 (filter (\<lambda>cg. updateGroupName (archetype cg) = ''A'') ?cus)
        = [128]"
    by (simp_all add: genCustomUpdateKernel_def paddedSizes_def getGroups_def padSize_def)
  note t = kernels_thread_layout [where blockSize = 32 and ns = ?ns and ms = ?ms
      and idStart = 0 and h = numNeurons and flt = "\<lambda>g. True" and groups = ?ngs
      and ngs = ?ngs and sgs = ?sgs and strategies = s_PresynapticUpdateStrategies
      and getName = psModelTargetName and preferences = "()"
      and strategyOf = "\<lambda>g. PostSpan" and getNumThreads = ?nthr
      and getSharedMemoryPerThread = ?shm and updateGroup = "''A''" and cus = ?cus
      and cws = "[]" and dense = "[]" and conn = ?sgs]
  note t1 = t [where isCompatible = ?compat]
  note t2 = t [where isCompatible = ?never]
  note r1 = t1 [THEN conjunct1]
  note r2 = t1 [THEN conjunct2, THEN conjunct1]
  note r4 = t1 [THEN conjunct2, THEN conjunct2, THEN conjunct2, THEN conjunct1]
  note r5 = t1 [THEN conjunct2, THEN conjunct2, THEN conjunct2, THEN conjunct2, THEN conjunct1]
  note r6 = t2 [THEN conjunct2, THEN conjunct2, THEN conjunct2, THEN conjunct2, THEN conjunct2,
      THEN conjunct1]
  note r7 = t1 [THEN conjunct2, THEN conjunct2, THEN conjunct2, THEN conjunct2, THEN conjunct2,
      THEN conjunct2, THEN conjunct1]
  note r9 = t1 [THEN conjunct2, THEN conjunct2, THEN conjunct2, THEN conjunct2, THEN conjunct2,
      THEN conjunct2, THEN conjunct2, THEN conjunct2, THEN conjunct1]
  note r11 = t1 [THEN conjunct2, THEN conjunct2, THEN conjunct2, THEN conjunct2, THEN conjunct2,
      THEN conjunct2, THEN conjunct2, THEN conjunct2, THEN conjunct2, THEN conjunct2,
      THEN conjunct1]
  from r1 r2
  have "(\<forall>i < length ?ns.
            (prevSpikeTimeRequired (archetype (?ns ! i))
               \<or> prevSpikeEventTimeRequired (archetype (?ns ! i))
             \<longrightarrow> 32 dvd numThreads ([IdBelow 384, IdBetween 384 385] ! i)))
      \<and> (\<forall>tid < 385. \<exists>!i. i < length [IdBelow 384, IdBetween 384 385]
                                \<and> holds ([IdBelow 384, IdBetween 384 385] ! i) tid)
      \<and> (\<forall>tid < 2. \<exists>!i. i < length [IdBelow 2] \<and> holds ([IdBelow 2] ! i) tid)"
    unfolding n m prod.case by blast
  then have old: "32 dvd numThreads ([IdBelow 384, IdBetween 384 385] ! 0)"
    "\<exists>!i. i < length [IdBelow 384, IdBetween 384 385]
            \<and> holds ([IdBelow 384, IdBetween 384 385] ! i) 384"
    "\<exists>!i. i < length [IdBelow 2] \<and> holds ([IdBelow 2] ! i) 1"
    using a b c by (fastforce, blast, blast)
  from r4 have l4: "threadLayout 32 0 [384] (Inr ([IdBetween 0 384], 384))"
    by (simp only: nu nuc)
  then have f4: "length (filter (\<lambda>t. holds t 383) [IdBetween 0 384]) = 1"
    by (simp add: threadLayout_def)
  from r11 have l11: "threadLayout 32 0 [384, 128]
      (Inr ([IdBetween 0 384, IdBetween 384 512], 512))"
    by (simp only: ini inic)
  then have f11: "length (filter (\<lambda>t. holds t 384) [IdBetween 0 384, IdBetween 384 512]) = 1"
    by (simp add: threadLayout_def)
  from r7 have l7: "threadLayout 32 0 [64] (Inr ([IdBetween 0 64], 64))"
    by (simp only: po poc)
  from r5 st have l5: "threadLayout 32 0 [64]
      (genPresynapticUpdateKernel s_PresynapticUpdateStrategies ?compat psModelTargetName
         ?nthr ?shm () 32 ?sgs)"
    by (simp only: prc)
  from r6 nst have l6: "\<exists>e. genPresynapticUpdateKernel s_PresynapticUpdateStrategies ?never
      psModelTargetName ?nthr ?shm () 32 ?sgs = Inl e"
    by (rule mp)
  from r9 have l9: "threadLayout 32 0 [128] (Inr ([IdBetween 0 128], 128))"
    by (simp only: cu cuc)
  show ?thesis
    by (intro conjI n m nu l4 f4 ini l11 f11 po l7 pr l5 l6 cu l9)
       (use old in simp_all)
qed

section \<open>The emitted stepTime function (generateRunner.cc)\<close>

text \<open>
  A code stream is the text written to it so far; \<open>std::endl\<close> writes a newline. The
  indentation and the braces that \<open>CodeStream\<close> and \<open>CodeStream::Scope\<close> add belong to a class
  outside the files modelled here and are left out. \<open>to_string\<close> is the decimal text that
  \<open>operator<<\<close> and \<open>std::to_string\<close> give an unsigned integer.
\<close>

definition endl :: string where
  "endl = [CHR 0x0A]"

function to_string :: "nat \<Rightarrow> string" where
  "to_string n =
     (if n < 10 then [char_of (48 + n)]
      else to_string (n div 10) @ [char_of (48 + n mod 10)])"
  by pat_completeness auto
termination
  by (relation "measure (\<lambda>n. n)") auto

declare to_string.simps [simp del]

text \<open>
  The loop over \<open>model.getNeuronGroups()\<close> that advances the host-side spike queue
  pointers. The neuron groups are the entries (name, group) of the map, in its order.
\<close>

fun genSpkQuePtrAdvance :: "string \<Rightarrow> (string \<times> NeuronGroupInternal) list \<Rightarrow> string" where
  "genSpkQuePtrAdvance runner [] = runner"
| "genSpkQuePtrAdvance runner (n # ns) =
     genSpkQuePtrAdvance
       (if delayRequired (snd n) then
          runner @ ''spkQuePtr'' @ fst n @ '' = (spkQuePtr'' @ fst n @ '' + 1) % ''
            @ to_string (numDelaySlots (snd n)) @ '';'' @ endl
        else runner) ns"

text \<open>The inner loop over \<open>getMergedInSyn()\<close> of one neuron group, and the outer loop.\<close>

fun genDenDelayPtrAdvanceInSyn ::
  "string \<Rightarrow> (SynapseGroupInternal \<times> SynapseGroupInternal list) list \<Rightarrow> string" where
  "genDenDelayPtrAdvanceInSyn runner [] = runner"
| "genDenDelayPtrAdvanceInSyn runner (m # ms) =
     genDenDelayPtrAdvanceInSyn
       (let sg = fst m in
        if dendriticDelayRequired sg then
          runner @ ''denDelayPtr'' @ psModelTargetName sg @ '' = (denDelayPtr''
            @ psModelTargetName sg @ '' + 1) % ''
            @ to_string (maxDendriticDelayTimesteps sg) @ '';'' @ endl
        else runner) ms"

fun genDenDelayPtrAdvance :: "string \<Rightarrow> (string \<times> NeuronGroupInternal) list \<Rightarrow> string" where
  "genDenDelayPtrAdvance runner [] = runner"
| "genDenDelayPtrAdvance runner (n # ns) =
     genDenDelayPtrAdvance (genDenDelayPtrAdvanceInSyn runner (mergedInSyn (snd n))) ns"

text \<open>
  The body of the emitted \<open>stepTime()\<close>: what \<open>generateRunner\<close> writes to \<open>runner\<close> inside
  the scope that follows \<open>void stepTime()\<close>. \<open>runnerStepTimeFinalise\<close> is the text of the
  stream \<open>runnerStepTimeFinaliseStream\<close>.
\<close>

definition genStepTime ::
  "(string \<times> NeuronGroupInternal) list \<Rightarrow> string \<Rightarrow> string \<Rightarrow> string" where
  "genStepTime neuronGroups runnerStepTimeFinalise runner =
     (let runner1 = runner @ ''updateSynapses(t);'' @ endl;
          runner2 = genSpkQuePtrAdvance runner1 neuronGroups;
          runner3 = runner2 @ ''updateNeurons(t);'' @ endl;
          runner4 = genDenDelayPtrAdvance runner3 neuronGroups;
          runner5 = runner4 @ ''iT++;'' @ endl;
          runner6 = runner5 @ ''t = iT*DT;'' @ endl
      in runner6 @ runnerStepTimeFinalise)"

text \<open>
  The order of statements the specification gives for \<open>stepTime()\<close>, written out as one
  text: the call \<open>updateSynapses(t);\<close>, the spike queue pointer advance of each neuron
  group with \<open>delayRequired\<close>, the call \<open>updateNeurons(t);\<close>, the dendritic delay pointer
  advance of each synapse group that requires dendritic delay (among the merged incoming
  synapse populations of the neuron groups), \<open>iT++;\<close>, \<open>t = iT*DT;\<close>, and the timing
  finalise epilogue.
\<close>

definition spkQuePtrAdvance :: "string \<times> NeuronGroupInternal \<Rightarrow> string" where
  "spkQuePtrAdvance n =
     ''spkQuePtr'' @ fst n @ '' = (spkQuePtr'' @ fst n @ '' + 1) % ''
       @ to_string (numDelaySlots (snd n)) @ '';'' @ endl"

definition denDelayPtrAdvance :: "SynapseGroupInternal \<Rightarrow> string" where
  "denDelayPtrAdvance sg =
     ''denDelayPtr'' @ psModelTargetName sg @ '' = (denDelayPtr'' @ psModelTargetName sg
       @ '' + 1) % '' @ to_string (maxDendriticDelayTimesteps sg) @ '';'' @ endl"

definition stepTime_order ::
  "(string \<times> NeuronGroupInternal) list \<Rightarrow> string \<Rightarrow> string" where
  "stepTime_order neuronGroups runnerStepTimeFinalise =
     ''updateSynapses(t);'' @ endl
     @ concat (map spkQuePtrAdvance (filter (\<lambda>n. delayRequired (snd n)) neuronGroups))
     @ ''updateNeurons(t);'' @ endl
     @ concat (map denDelayPtrAdvance
         (filter dendriticDelayRequired
            (concat (map (\<lambda>n. map fst (mergedInSyn (snd n))) neuronGroups))))
     @ ''iT++;'' @ endl
     @ ''t = iT*DT;'' @ endl
     @ runnerStepTimeFinalise"

section \<open>Properties of the emitted stepTime function\<close>

lemma genSpkQuePtrAdvance_concat:
  "genSpkQuePtrAdvance runner ns =
     runner @ concat (map spkQuePtrAdvance (filter (\<lambda>n. delayRequired (snd n)) ns))"
  by (induction ns arbitrary: runner) (simp_all add: spkQuePtrAdvance_def)

lemma genDenDelayPtrAdvanceInSyn_concat:
  "genDenDelayPtrAdvanceInSyn runner ms =
     runner @ concat (map denDelayPtrAdvance (filter dendriticDelayRequired (map fst ms)))"
  by (induction ms arbitrary: runner) (simp_all add: denDelayPtrAdvance_def Let_def)

lemma genDenDelayPtrAdvance_concat:
  "genDenDelayPtrAdvance runner ns =
     runner @ concat (map denDelayPtrAdvance
       (filter dendriticDelayRequired (concat (map (\<lambda>n. map fst (mergedInSyn (snd n))) ns))))"
  by (induction ns arbitrary: runner) (simp_all add: genDenDelayPtrAdvanceInSyn_concat)

text \<open>
  C2. What \<open>generateRunner\<close> writes into the body of \<open>stepTime()\<close> is, after what the
  stream held before, exactly the statements in the specified order.
\<close>

theorem genStepTime_order:
  "genStepTime neuronGroups runnerStepTimeFinalise runner =
     runner @ stepTime_order neuronGroups runnerStepTimeFinalise"
  by (simp add: genStepTime_def stepTime_order_def genSpkQuePtrAdvance_concat
        genDenDelayPtrAdvance_concat Let_def)

section \<open>The custom update body (customUpdateGroupMerged.cc)\<close>

unbundle bit_operations_syntax

text \<open>
  Modelled from the spec: the access flags of variables and variable references. The
  enumerations \<open>VarAccessModeAttribute\<close>, \<open>VarAccessMode\<close> and \<open>VarAccess\<close> are declared
  in a header outside the files modelled here; the spec names the READ_ONLY, READ_WRITE
  and REDUCE access of a variable. They are unsigned bit masks: one bit for each of the
  attributes READ_ONLY, READ_WRITE, REDUCE, SUM and MAX, the access modes built from them,
  and, for a variable, one further bit for its duplication across batches. The
  operator \<open>&\<close> of an access with a mode or attribute is true when they share a bit.
\<close>

definition VarAccessModeAttribute_READ_ONLY :: "32 word" where
  "VarAccessModeAttribute_READ_ONLY = push_bit 0 1"

definition VarAccessModeAttribute_READ_WRITE :: "32 word" where
  "VarAccessModeAttribute_READ_WRITE = push_bit 1 1"

definition VarAccessModeAttribute_REDUCE :: "32 word" where
  "VarAccessModeAttribute_REDUCE = push_bit 2 1"

definition VarAccessModeAttribute_SUM :: "32 word" where
  "VarAccessModeAttribute_SUM = push_bit 3 1"

definition VarAccessModeAttribute_MAX :: "32 word" where
  "VarAccessModeAttribute_MAX = push_bit 4 1"

definition VarAccessMode_READ_WRITE :: "32 word" where
  "VarAccessMode_READ_WRITE = VarAccessModeAttribute_READ_WRITE"

definition VarAccessMode_READ_ONLY :: "32 word" where
  "VarAccessMode_READ_ONLY = VarAccessModeAttribute_READ_ONLY"

definition VarAccessMode_REDUCE_SUM :: "32 word" where
  "VarAccessMode_REDUCE_SUM = VarAccessModeAttribute_REDUCE OR VarAccessModeAttribute_SUM"

definition VarAccessMode_REDUCE_MAX :: "32 word" where
  "VarAccessMode_REDUCE_MAX = VarAccessModeAttribute_REDUCE OR VarAccessModeAttribute_MAX"

definition VarAccessDuplication_DUPLICATE :: "32 word" where
  "VarAccessDuplication_DUPLICATE = push_bit 5 1"

definition VarAccessDuplication_SHARED :: "32 word" where
  "VarAccessDuplication_SHARED = push_bit 6 1"

definition accessAnd :: "32 word \<Rightarrow> 32 word \<Rightarrow> bool" where
  "accessAnd a b = (a AND b \<noteq> 0)"

text \<open>
  A variable or variable reference of the custom update model: its name, the name of its
  type and its access (a \<open>VarAccess\<close> for a variable, a \<open>VarAccessMode\<close> for a reference).
\<close>

record Var =
  name :: string
  vtype :: string
  access :: "32 word"

text \<open>
  What \<open>genCustomUpdate\<close> reads from the merged group \<open>cg\<close> and its custom update model:
  the index of the merged group, the variables, the variable references, the update code,
  the archetype's map from the name of a variable reference to the reference, and
  \<open>getVarIndex\<close>, which stands for
  \<open>cg.getVarIndex(getVarAccessDuplication(access), index)\<close>.
\<close>

record 'r CustomUpdateGroup =
  mergedIndex :: nat
  vars :: "Var list"
  varRefs :: "Var list"
  updateCode :: string
  varReferences :: "string \<rightharpoonup> 'r"
  getVarIndex :: "32 word \<Rightarrow> string \<Rightarrow> string"

fun genVarDecls :: "'r CustomUpdateGroup \<Rightarrow> string \<Rightarrow> string \<Rightarrow> Var list \<Rightarrow> string" where
  "genVarDecls cg idx os [] = os"
| "genVarDecls cg idx os (v # vs) =
     (let os1 = (if accessAnd (access v) VarAccessMode_READ_ONLY then os @ ''const '' else os);
          os2 = os1 @ vtype v @ '' l'' @ name v;
          os3 = (if \<not> accessAnd (access v) VarAccessModeAttribute_REDUCE then
                   os2 @ '' = group->'' @ name v @ ''['' @ getVarIndex cg (access v) idx @ '']''
                 else os2)
      in genVarDecls cg idx (os3 @ '';'' @ endl) vs)"

fun genVarRefDecls ::
  "'r CustomUpdateGroup \<Rightarrow> ('r \<Rightarrow> string \<Rightarrow> string) \<Rightarrow> string \<Rightarrow> string \<Rightarrow> Var list
     \<Rightarrow> exn + string" where
  "genVarRefDecls cg getVarRefIndex idx os [] = Inr os"
| "genVarRefDecls cg getVarRefIndex idx os (v # vs) =
     (let os1 = (if access v = VarAccessMode_READ_ONLY then os @ ''const '' else os);
          os2 = os1 @ vtype v @ '' l'' @ name v
      in if \<not> accessAnd (access v) VarAccessModeAttribute_REDUCE then
           (case varReferences cg (name v) of
              None \<Rightarrow> Inl OutOfRange
            | Some r \<Rightarrow>
                genVarRefDecls cg getVarRefIndex idx
                  (os2 @ '' = '' @ ''group->'' @ name v @ ''['' @ getVarRefIndex r idx @ '']''
                     @ '';'' @ endl) vs)
         else genVarRefDecls cg getVarRefIndex idx (os2 @ '';'' @ endl) vs)"

fun genVarWriteBacks :: "'r CustomUpdateGroup \<Rightarrow> string \<Rightarrow> string \<Rightarrow> Var list \<Rightarrow> string" where
  "genVarWriteBacks cg idx os [] = os"
| "genVarWriteBacks cg idx os (v # vs) =
     genVarWriteBacks cg idx
       (if accessAnd (access v) VarAccessMode_READ_WRITE then
          os @ ''group->'' @ name v @ ''['' @ getVarIndex cg (access v) idx
             @ ''] = l'' @ name v @ '';'' @ endl
        else os) vs"

fun genVarRefWriteBacks ::
  "'r CustomUpdateGroup \<Rightarrow> ('r \<Rightarrow> string \<Rightarrow> string) \<Rightarrow> string \<Rightarrow> string \<Rightarrow> Var list
     \<Rightarrow> exn + string" where
  "genVarRefWriteBacks cg getVarRefIndex idx os [] = Inr os"
| "genVarRefWriteBacks cg getVarRefIndex idx os (v # vs) =
     (if access v = VarAccessMode_READ_WRITE then
        (case varReferences cg (name v) of
           None \<Rightarrow> Inl OutOfRange
         | Some r \<Rightarrow>
             genVarRefWriteBacks cg getVarRefIndex idx
               (os @ ''group->'' @ name v @ ''['' @ getVarRefIndex r idx
                  @ ''] = l'' @ name v @ '';'' @ endl) vs)
      else genVarRefWriteBacks cg getVarRefIndex idx os vs)"

text \<open>
  \<open>genCustomUpdate\<close>. The substitution stack is in a header outside the files modelled
  here: \<open>idx\<close> is the text \<open>updateSubs[index]\<close>, and \<open>applyCheckUnreplaced\<close>, given the code
  and the context label, returns the code with all substitutions applied or raises.
  \<open>ensureFtype\<close> is a parameter too, applied to the code and the model's precision.
\<close>

definition genCustomUpdate ::
  "string \<Rightarrow> string \<Rightarrow> (string \<Rightarrow> string \<Rightarrow> exn + string) \<Rightarrow> 'r CustomUpdateGroup
     \<Rightarrow> (string \<Rightarrow> string \<Rightarrow> string) \<Rightarrow> string \<Rightarrow> ('r \<Rightarrow> string \<Rightarrow> string) \<Rightarrow> exn + string" where
  "genCustomUpdate os idx applyCheckUnreplaced cg ensureFtype precision getVarRefIndex =
     (case genVarRefDecls cg getVarRefIndex idx (genVarDecls cg idx os (vars cg)) (varRefs cg) of
        Inl e \<Rightarrow> Inl e
      | Inr os1 \<Rightarrow>
          (case applyCheckUnreplaced (updateCode cg)
                  (''custom update : merged'' @ to_string (mergedIndex cg)) of
             Inl e \<Rightarrow> Inl e
           | Inr code \<Rightarrow>
               genVarRefWriteBacks cg getVarRefIndex idx
                 (genVarWriteBacks cg idx (os1 @ ensureFtype code precision) (vars cg))
                 (varRefs cg)))"

text \<open>
  The body of a custom update as the specification describes it, with the REDUCE
  variables as the code has them. \<open>localDecl\<close> is the declaration of the local scalar
  \<open>l<name>\<close> of a variable: with \<open>const\<close> when read-only, initialised from global memory
  unless the variable has REDUCE access, and without an initialiser when it has.
  \<open>writeBack\<close> is the assignment of the local scalar back to global memory.
\<close>

definition localDecl :: "bool \<Rightarrow> string \<Rightarrow> Var \<Rightarrow> string" where
  "localDecl readOnly globalIndex v =
     (if readOnly then ''const '' else [])
     @ vtype v @ '' l'' @ name v
     @ (if accessAnd (access v) VarAccessModeAttribute_REDUCE then []
        else '' = group->'' @ name v @ ''['' @ globalIndex @ '']'')
     @ '';'' @ endl"

definition writeBack :: "string \<Rightarrow> Var \<Rightarrow> string" where
  "writeBack globalIndex v =
     ''group->'' @ name v @ ''['' @ globalIndex @ ''] = l'' @ name v @ '';'' @ endl"

definition customUpdate_body ::
  "string \<Rightarrow> string \<Rightarrow> 'r CustomUpdateGroup \<Rightarrow> ('r \<Rightarrow> string \<Rightarrow> string) \<Rightarrow> string" where
  "customUpdate_body idx snippet cg getVarRefIndex =
     concat (map (\<lambda>v. localDecl (accessAnd (access v) VarAccessMode_READ_ONLY)
                         (getVarIndex cg (access v) idx) v) (vars cg))
     @ concat (map (\<lambda>v. localDecl (access v = VarAccessMode_READ_ONLY)
                         (getVarRefIndex (the (varReferences cg (name v))) idx) v) (varRefs cg))
     @ snippet
     @ concat (map (\<lambda>v. writeBack (getVarIndex cg (access v) idx) v)
         (filter (\<lambda>v. accessAnd (access v) VarAccessMode_READ_WRITE) (vars cg)))
     @ concat (map (\<lambda>v. writeBack (getVarRefIndex (the (varReferences cg (name v))) idx) v)
         (filter (\<lambda>v. access v = VarAccessMode_READ_WRITE) (varRefs cg)))"

section \<open>Properties of the custom update body\<close>

lemma genVarDecls_concat:
  "genVarDecls cg idx os vs =
     os @ concat (map (\<lambda>v. localDecl (accessAnd (access v) VarAccessMode_READ_ONLY)
                         (getVarIndex cg (access v) idx) v) vs)"
  by (induction vs arbitrary: os) (simp_all add: localDecl_def Let_def)

lemma genVarRefDecls_concat:
  "\<forall>v \<in> set vs. name v \<in> dom (varReferences cg) \<Longrightarrow>
   genVarRefDecls cg getVarRefIndex idx os vs =
     Inr (os @ concat (map (\<lambda>v. localDecl (access v = VarAccessMode_READ_ONLY)
                         (getVarRefIndex (the (varReferences cg (name v))) idx) v) vs))"
  by (induction vs arbitrary: os) (auto simp: localDecl_def Let_def)

lemma genVarWriteBacks_concat:
  "genVarWriteBacks cg idx os vs =
     os @ concat (map (\<lambda>v. writeBack (getVarIndex cg (access v) idx) v)
         (filter (\<lambda>v. accessAnd (access v) VarAccessMode_READ_WRITE) vs))"
  by (induction vs arbitrary: os) (simp_all add: writeBack_def)

lemma genVarRefWriteBacks_concat:
  "\<forall>v \<in> set vs. name v \<in> dom (varReferences cg) \<Longrightarrow>
   genVarRefWriteBacks cg getVarRefIndex idx os vs =
     Inr (os @ concat (map (\<lambda>v. writeBack (getVarRefIndex (the (varReferences cg (name v))) idx) v)
         (filter (\<lambda>v. access v = VarAccessMode_READ_WRITE) vs)))"
  by (induction vs arbitrary: os) (auto simp: writeBack_def)

lemmas access_eval = accessAnd_def VarAccessModeAttribute_READ_ONLY_def
  VarAccessModeAttribute_READ_WRITE_def VarAccessModeAttribute_REDUCE_def
  VarAccessModeAttribute_SUM_def VarAccessModeAttribute_MAX_def
  VarAccessMode_READ_WRITE_def VarAccessMode_READ_ONLY_def VarAccessMode_REDUCE_SUM_def
  VarAccessMode_REDUCE_MAX_def VarAccessDuplication_DUPLICATE_def VarAccessDuplication_SHARED_def

text \<open>
  C9, as stated, fails for the REDUCE variables: a custom update model with the single
  variable \<open>sum\<close> of REDUCE access, no variable references and no code gives the body
  \<open>scalar lsum;\<close>: the local scalar is declared, without an initialiser.
\<close>

theorem genCustomUpdate_reduce_counterexample:
  "genCustomUpdate [] ''id'' (\<lambda>code context. Inr code)
     \<lparr>mergedIndex = 0,
      vars = [\<lparr>name = ''sum'', vtype = ''scalar'',
               access = VarAccessMode_REDUCE_SUM OR VarAccessDuplication_SHARED\<rparr>],
      varRefs = [], updateCode = [], varReferences = (Map.empty :: string \<rightharpoonup> unit),
      getVarIndex = (\<lambda>a i. i)\<rparr>
     (\<lambda>code precision. code) ''float'' (\<lambda>r i. i)
   = Inr (''scalar lsum;'' @ endl)"
  by (simp add: genCustomUpdate_def access_eval Let_def)

text \<open>
  C9, amended. When every variable reference of the model is among the archetype's
  references and \<open>applyCheckUnreplaced\<close> accepts the update code, \<open>genCustomUpdate\<close> appends
  to the stream, in this order: for every variable and then every variable reference the
  declaration of its local scalar \<open>l<name>\<close>, initialised from global memory unless its
  access is REDUCE, in which case it is declared without an initialiser; the update
  snippet; and the write back to global memory of every variable whose access has
  READ_WRITE and of every variable reference whose access is READ_WRITE.
\<close>

theorem genCustomUpdate_body:
  assumes "\<forall>v \<in> set (varRefs cg). name v \<in> dom (varReferences cg)"
    and "applyCheckUnreplaced (updateCode cg)
           (''custom update : merged'' @ to_string (mergedIndex cg)) = Inr code"
  shows "genCustomUpdate os idx applyCheckUnreplaced cg ensureFtype precision getVarRefIndex
     = Inr (os @ customUpdate_body idx (ensureFtype code precision) cg getVarRefIndex)"
  using assms
  by (simp add: genCustomUpdate_def customUpdate_body_def genVarDecls_concat
        genVarRefDecls_concat genVarWriteBacks_concat genVarRefWriteBacks_concat)

text \<open>
  A model with the read-write variable \<open>V\<close>, the REDUCE variable \<open>sum\<close> and the read-write
  variable reference \<open>R\<close>.
\<close>

theorem genCustomUpdate_body_witness:
  "genCustomUpdate [] ''id'' (\<lambda>code context. Inr code)
     \<lparr>mergedIndex = 7,
      vars = [\<lparr>name = ''V'', vtype = ''scalar'',
               access = VarAccessMode_READ_WRITE OR VarAccessDuplication_DUPLICATE\<rparr>,
              \<lparr>name = ''sum'', vtype = ''scalar'',
               access = VarAccessMode_REDUCE_SUM OR VarAccessDuplication_SHARED\<rparr>],
      varRefs = [\<lparr>name = ''R'', vtype = ''scalar'', access = VarAccessMode_READ_WRITE\<rparr>],
      updateCode = ''lsum = lV + lR;'' @ endl,
      varReferences = [''R'' \<mapsto> ()],
      getVarIndex = (\<lambda>a i. i)\<rparr>
     (\<lambda>code precision. code) ''float'' (\<lambda>r i. i)
   = Inr (''scalar lV = group->V[id];'' @ endl
          @ ''scalar lsum;'' @ endl
          @ ''scalar lR = group->R[id];'' @ endl
          @ ''lsum = lV + lR;'' @ endl
          @ ''group->V[id] = lV;'' @ endl
          @ ''group->R[id] = lR;'' @ endl)"
proof -
  let ?cg = "\<lparr>mergedIndex = 7,
      vars = [\<lparr>name = ''V'', vtype = ''scalar'',
               access = VarAccessMode_READ_WRITE OR VarAccessDuplication_DUPLICATE\<rparr>,
              \<lparr>name = ''sum'', vtype = ''scalar'',
               access = VarAccessMode_REDUCE_SUM OR VarAccessDuplication_SHARED\<rparr>],
      varRefs = [\<lparr>name = ''R'', vtype = ''scalar'', access = VarAccessMode_READ_WRITE\<rparr>],
      updateCode = ''lsum = lV + lR;'' @ endl,
      varReferences = [''R'' \<mapsto> ()],
      getVarIndex = (\<lambda>a i. i)\<rparr>"
  have r: "\<forall>v \<in> set (varRefs ?cg). name v \<in> dom (varReferences ?cg)" by simp
  have a: "(\<lambda>code context. Inr code) (updateCode ?cg)
             (''custom update : merged'' @ to_string (mergedIndex ?cg))
           = (Inr (''lsum = lV + lR;'' @ endl) :: exn + string)" by simp
  from r a genCustomUpdate_body [where cg = ?cg and os = "[]" and idx = "''id''"
      and applyCheckUnreplaced = "\<lambda>code context. Inr code"
      and code = "''lsum = lV + lR;'' @ endl"
      and ensureFtype = "\<lambda>code precision. code" and precision = "''float''"
      and getVarRefIndex = "\<lambda>r i. i"]
  show ?thesis
    by (simp add: customUpdate_body_def localDecl_def writeBack_def access_eval)
qed

end
